theory Spec2Isabelle
  imports Complex_Main "HOL-Library.Sublist"
begin

section \<open>Python values used by the extraction core\<close>

text \<open>
  A Python \<open>str\<close> is a sequence of Unicode code points; slicing and \<open>len\<close> count code
  points. Strings are therefore lists of code points, and ASCII literals are written
  through \<open>ascii\<close>.
\<close>

type_synonym ustring = "nat list"

definition ascii :: "string \<Rightarrow> ustring" where
  "ascii s = map of_char s"

datatype py_error =
  AttributeError | ValueError | UnicodeEncodeError | ZeroDivisionError | WebDriverException
  | OSError

text \<open>\<open>except ValueError\<close> also catches its subclass \<open>UnicodeEncodeError\<close>.\<close>

definition is_value_error :: "py_error \<Rightarrow> bool" where
  "is_value_error e \<longleftrightarrow> e = ValueError \<or> e = UnicodeEncodeError"

text \<open>The argument \<open>text\<close> of \<open>parse_percentage\<close>: a string, or \<open>None\<close>.\<close>

datatype pyval = PyNone | PyStr ustring

subsection \<open>Character classes\<close>

text \<open>
  \<open>str.isspace\<close>, which is also what \<open>str.strip()\<close> removes and what the class \<open>\s\<close> of
  \<open>re\<close> matches on a \<open>str\<close> pattern.
\<close>

definition is_space :: "nat \<Rightarrow> bool" where
  "is_space c \<longleftrightarrow> c \<in> set [9, 10, 11, 12, 13, 28, 29, 30, 31, 32, 133, 160, 5760,
     8192, 8193, 8194, 8195, 8196, 8197, 8198, 8199, 8200, 8201, 8202,
     8232, 8233, 8239, 8287, 12288]"

text \<open>
  The Unicode decimal digits (general category Nd, Unicode 14) come in runs of ten, each
  starting at its zero digit. \<open>\d\<close> of \<open>re\<close>, \<open>int()\<close> and \<open>float()\<close> all accept them.
\<close>

definition digit_zeros :: "nat list" where
  "digit_zeros = [48, 1632, 1776, 1984, 2406, 2534, 2662, 2790, 2918, 3046, 3174, 3302,
     3430, 3558, 3664, 3792, 3872, 4160, 4240, 6112, 6160, 6470, 6608, 6784, 6800, 6992,
     7088, 7232, 7248, 42528, 43216, 43264, 43472, 43504, 43600, 44016, 65296, 66720,
     68912, 69734, 69872, 69942, 70096, 70384, 70736, 70864, 71248, 71360, 71472, 71904,
     72016, 72784, 73040, 73120, 92768, 92864, 93008, 120782, 120792, 120802, 120812,
     120822, 123200, 123632, 125264, 130032]"

definition decimal :: "nat \<Rightarrow> nat option" where
  "decimal c = map_option (\<lambda>z. c - z) (find (\<lambda>z. z \<le> c \<and> c < z + 10) digit_zeros)"

definition is_digit :: "nat \<Rightarrow> bool" where
  "is_digit c \<longleftrightarrow> decimal c \<noteq> None"

subsection \<open>String methods\<close>

text \<open>
  \<open>s.replace(old, new)\<close>: every non-overlapping occurrence of \<open>old\<close>, leftmost first. With
  an empty \<open>old\<close> Python puts \<open>new\<close> before every character and at the end.
\<close>

function str_replace :: "ustring \<Rightarrow> ustring \<Rightarrow> ustring \<Rightarrow> ustring" where
  "str_replace old new s =
     (if old = [] then new @ concat (map (\<lambda>c. c # new) s)
      else if s = [] then []
      else if prefix old s then new @ str_replace old new (drop (length old) s)
      else hd s # str_replace old new (tl s))"
  by pat_completeness auto
termination
  by (relation "measure (\<lambda>(old, new, s). length s)") auto

declare str_replace.simps [simp del]

definition strip_by :: "(nat \<Rightarrow> bool) \<Rightarrow> ustring \<Rightarrow> ustring" where
  "strip_by p s = rev (dropWhile p (rev (dropWhile p s)))"

definition str_strip :: "ustring \<Rightarrow> ustring" where
  "str_strip s = strip_by is_space s"

subsection \<open>Floats\<close>

text \<open>
  A Python float is an IEEE 754 binary64 value. A finite one is the rational it denotes
  (the two zeros are identified, as \<open>==\<close> does); every operation computes exactly and
  rounds to the nearest double, ties to even, overflowing to an infinity.
\<close>

datatype pyfloat = Fin rat | PInf | NInf | NaN

definition round_half_even :: "rat \<Rightarrow> int" where
  "round_half_even q =
     (let f = \<lfloor>q\<rfloor>; r = q - of_int f
      in if r < 1 / 2 then f else if 1 / 2 < r then f + 1 else if even f then f else f + 1)"

fun bit_length :: "nat \<Rightarrow> nat" where
  "bit_length n = (if n = 0 then 0 else Suc (bit_length (n div 2)))"

declare bit_length.simps [simp del]

text \<open>
  \<open>ilog2 q\<close> is the exponent \<open>e\<close> with \<open>2^e \<le> q < 2^(e+1)\<close>, for a positive \<open>q\<close>: read
  off the bit length of \<open>\<lfloor>q\<rfloor>\<close> from 1 on, and off that of \<open>\<lceil>1/q\<rceil> - 1\<close> below 1.
\<close>

definition ilog2 :: "rat \<Rightarrow> int" where
  "ilog2 q =
     (if 1 \<le> q then int (bit_length (nat \<lfloor>q\<rfloor>)) - 1
      else - int (bit_length (nat (\<lceil>1 / q\<rceil> - 1))))"

text \<open>
  The magnitude of the double nearest to a positive rational: 53 significant bits, and
  the exponent of the last place never below \<open>-1074\<close> (the subnormal range).
\<close>

definition round_mag :: "rat \<Rightarrow> rat" where
  "round_mag q =
     (let e = max (ilog2 q - 52) (- 1074)
      in of_int (round_half_even (q / 2 powi e)) * 2 powi e)"

definition round_double :: "rat \<Rightarrow> pyfloat" where
  "round_double q =
     (if q = 0 then Fin 0
      else let v = round_mag \<bar>q\<bar>
           in if 2 powi 1024 \<le> v then (if 0 < q then PInf else NInf)
              else Fin (if 0 < q then v else - v))"

fun fadd :: "pyfloat \<Rightarrow> pyfloat \<Rightarrow> pyfloat" where
  "fadd (Fin a) (Fin b) = round_double (a + b)"
| "fadd NaN _ = NaN"
| "fadd _ NaN = NaN"
| "fadd PInf NInf = NaN"
| "fadd NInf PInf = NaN"
| "fadd PInf _ = PInf"
| "fadd NInf _ = NInf"
| "fadd _ PInf = PInf"
| "fadd _ NInf = NInf"

fun fmul :: "pyfloat \<Rightarrow> pyfloat \<Rightarrow> pyfloat" where
  "fmul (Fin a) (Fin b) = round_double (a * b)"
| "fmul NaN _ = NaN"
| "fmul _ NaN = NaN"
| "fmul PInf (Fin b) = (if b = 0 then NaN else if 0 < b then PInf else NInf)"
| "fmul NInf (Fin b) = (if b = 0 then NaN else if 0 < b then NInf else PInf)"
| "fmul (Fin a) PInf = (if a = 0 then NaN else if 0 < a then PInf else NInf)"
| "fmul (Fin a) NInf = (if a = 0 then NaN else if 0 < a then NInf else PInf)"
| "fmul PInf PInf = PInf"
| "fmul NInf NInf = PInf"
| "fmul PInf NInf = NInf"
| "fmul NInf PInf = NInf"

text \<open>The quotient of two floats, for a divisor that is not zero.\<close>

fun fdiv :: "pyfloat \<Rightarrow> pyfloat \<Rightarrow> pyfloat" where
  "fdiv (Fin a) (Fin b) = round_double (a / b)"
| "fdiv NaN _ = NaN"
| "fdiv _ NaN = NaN"
| "fdiv (Fin a) PInf = Fin 0"
| "fdiv (Fin a) NInf = Fin 0"
| "fdiv PInf (Fin b) = (if 0 \<le> b then PInf else NInf)"
| "fdiv NInf (Fin b) = (if 0 \<le> b then NInf else PInf)"
| "fdiv PInf PInf = NaN"
| "fdiv PInf NInf = NaN"
| "fdiv NInf PInf = NaN"
| "fdiv NInf NInf = NaN"

text \<open>\<open>a / b\<close> on floats raises \<open>ZeroDivisionError\<close> on a zero divisor.\<close>

definition py_truediv :: "pyfloat \<Rightarrow> pyfloat \<Rightarrow> py_error + pyfloat" where
  "py_truediv a b = (if b = Fin 0 then Inl ZeroDivisionError else Inr (fdiv a b))"

text \<open>\<open>bool(x)\<close> of a float: false for a zero only (a NaN is true).\<close>

definition truthy :: "pyfloat \<Rightarrow> bool" where
  "truthy x \<longleftrightarrow> x \<noteq> Fin 0"

text \<open>
  \<open>round(x, 2)\<close>: the exact value of \<open>x\<close> is rounded to two decimals, ties to even, and
  the decimal is converted back to the nearest double; an infinity or a NaN rounds to
  itself. (Python raises \<open>OverflowError\<close> when the conversion back overflows; with two
  decimals it cannot, as every double from \<open>2^52\<close> on is a whole number and rounds to
  itself.)
\<close>

definition py_round2 :: "pyfloat \<Rightarrow> pyfloat" where
  "py_round2 x =
     (case x of Fin a \<Rightarrow> round_double (of_int (round_half_even (a * 100)) / 100) | _ \<Rightarrow> x)"

subsection \<open>\<open>float(str)\<close> and \<open>int(str)\<close>\<close>

text \<open>
  A digit part is a run of decimal digits in which single underscores may stand between
  two digits. The result lists the digit values.
\<close>

fun digitpart :: "ustring \<Rightarrow> nat list option" where
  "digitpart [] = None"
| "digitpart [c] = map_option (\<lambda>d. [d]) (decimal c)"
| "digitpart (c # c' # cs) =
     (case decimal c of
        None \<Rightarrow> None
      | Some d \<Rightarrow> map_option ((#) d) (if c' = 95 then digitpart cs else digitpart (c' # cs)))"

definition digits_value :: "nat list \<Rightarrow> nat" where
  "digits_value ds = foldl (\<lambda>acc d. 10 * acc + d) 0 ds"

text \<open>An optional sign in front: whether it is a minus, and the rest.\<close>

definition split_sign :: "ustring \<Rightarrow> bool \<times> ustring" where
  "split_sign s =
     (case s of
        [] \<Rightarrow> (False, [])
      | c # cs \<Rightarrow> if c = 45 then (True, cs) else if c = 43 then (False, cs) else (False, s))"

text \<open>
  The mantissa \<open>[digitpart] "." digitpart | digitpart ["."]\<close>: all its digits read as one
  natural number, and how many of them follow the point.
\<close>

definition parse_mantissa :: "ustring \<Rightarrow> (nat \<times> nat) option" where
  "parse_mantissa m =
     (let ip = takeWhile (\<lambda>c. c \<noteq> 46) m; r = dropWhile (\<lambda>c. c \<noteq> 46) m
      in if r = [] then map_option (\<lambda>ds. (digits_value ds, 0)) (digitpart ip)
         else let fp = tl r
              in if ip = [] \<and> fp = [] then None
                 else case (if ip = [] then Some [] else digitpart ip,
                            if fp = [] then Some [] else digitpart fp) of
                        (Some a, Some b) \<Rightarrow> Some (digits_value (a @ b), length b)
                      | _ \<Rightarrow> None)"

definition parse_exponent :: "ustring \<Rightarrow> int option" where
  "parse_exponent x =
     (case split_sign x of (neg, ds) \<Rightarrow>
        map_option (\<lambda>d. if neg then - int (digits_value d) else int (digits_value d))
          (digitpart ds))"

definition no_exp_mark :: "nat \<Rightarrow> bool" where
  "no_exp_mark c \<longleftrightarrow> c \<noteq> 101 \<and> c \<noteq> 69"

definition floatnumber :: "ustring \<Rightarrow> rat option" where
  "floatnumber s =
     (let m = takeWhile no_exp_mark s; r = dropWhile no_exp_mark s
      in case parse_mantissa m of
           None \<Rightarrow> None
         | Some (n, k) \<Rightarrow>
             if r = [] then Some (of_nat n / 10 ^ k)
             else (case parse_exponent (tl r) of
                     None \<Rightarrow> None
                   | Some x \<Rightarrow> Some ((of_nat n / 10 ^ k) * (10 powi x))))"

definition ascii_lower :: "nat \<Rightarrow> nat" where
  "ascii_lower c = (if 65 \<le> c \<and> c \<le> 90 then c + 32 else c)"

text \<open>
  The blanks \<open>float()\<close> and \<open>int()\<close> drop around the number: the ASCII ones of C, and the
  Unicode spaces from code point 127 on (the separators 28 to 31 are kept, and rejected).
\<close>

definition is_float_space :: "nat \<Rightarrow> bool" where
  "is_float_space c \<longleftrightarrow> c \<in> set [9, 10, 11, 12, 13, 32] \<or> (127 \<le> c \<and> is_space c)"

text \<open>\<open>float(s)\<close> for a string; \<open>None\<close> stands for the \<open>ValueError\<close>.\<close>

definition py_float :: "ustring \<Rightarrow> pyfloat option" where
  "py_float s =
     (case split_sign (strip_by is_float_space s) of (neg, u) \<Rightarrow>
        let w = map ascii_lower u
        in if w = ascii ''inf'' \<or> w = ascii ''infinity'' then Some (if neg then NInf else PInf)
           else if w = ascii ''nan'' then Some NaN
           else map_option (\<lambda>q. round_double (if neg then - q else q)) (floatnumber u))"

text \<open>\<open>int(s)\<close> in base ten; \<open>None\<close> stands for the \<open>ValueError\<close>.\<close>

definition py_int :: "ustring \<Rightarrow> int option" where
  "py_int s =
     (case split_sign (strip_by is_float_space s) of (neg, u) \<Rightarrow>
        map_option (\<lambda>d. if neg then - int (digits_value d) else int (digits_value d))
          (digitpart u))"

section \<open>Percentage parser\<close>

text \<open>
  \<open>try: body except (AttributeError, ValueError): return default\<close>: the two named
  exceptions are caught, any other one leaves the function.
\<close>

definition clean_str :: "ustring \<Rightarrow> ustring" where
  "clean_str s =
     str_strip (str_replace (ascii '','') (ascii ''.'') (str_replace (ascii ''%'') [] s))"

text \<open>\<open>text.replace\<close> on \<open>None\<close> is an \<open>AttributeError\<close>.\<close>

definition cleaned :: "pyval \<Rightarrow> py_error + ustring" where
  "cleaned text = (case text of PyNone \<Rightarrow> Inl AttributeError | PyStr s \<Rightarrow> Inr (clean_str s))"

definition float_of :: "ustring \<Rightarrow> py_error + pyfloat" where
  "float_of s = (case py_float s of None \<Rightarrow> Inl ValueError | Some v \<Rightarrow> Inr v)"

definition parse_percentage :: "pyval \<Rightarrow> pyfloat \<Rightarrow> py_error + pyfloat" where
  "parse_percentage text dflt =
     (case (case cleaned text of Inl e \<Rightarrow> Inl e | Inr c \<Rightarrow> float_of c) of
        Inr v \<Rightarrow> Inr v
      | Inl e \<Rightarrow> if e = AttributeError \<or> is_value_error e then Inr dflt else Inl e)"

section \<open>Parsed documents\<close>

text \<open>
  What \<open>BeautifulSoup(markup, "html.parser")\<close> hands to the extractors: a tree of tags
  (name, attribute dictionary as an association list, contents), text strings, and the
  strings that are not text (comments and the like), which \<open>get_text\<close> leaves out. The
  soup itself is the root tag.
\<close>

datatype node =
  NavigableString ustring
| Comment ustring
| Tag ustring "(ustring \<times> ustring) list" "node list"

fun strings :: "node \<Rightarrow> ustring list" where
  "strings (NavigableString s) = [s]"
| "strings (Comment s) = []"
| "strings (Tag n a cs) = concat (map strings cs)"

fun str_join :: "ustring \<Rightarrow> ustring list \<Rightarrow> ustring" where
  "str_join sep [] = []"
| "str_join sep [x] = x"
| "str_join sep (x # y # ys) = x @ sep @ str_join sep (y # ys)"

text \<open>
  \<open>tag.get_text(sep, strip=True)\<close>: the text strings below the tag in document order,
  each stripped, the empty ones dropped, joined by \<open>sep\<close>.
\<close>

definition get_text :: "ustring \<Rightarrow> node \<Rightarrow> ustring" where
  "get_text sep n = str_join sep (filter (\<lambda>s. s \<noteq> []) (map str_strip (strings n)))"

text \<open>
  A tag found in a tree is kept with its ancestors, nearest first, so that
  \<open>find_parent\<close> can walk upwards. \<open>descendants\<close> lists everything below a node in document
  order.
\<close>

type_synonym located = "node list \<times> node"

fun descendants :: "node list \<Rightarrow> node \<Rightarrow> located list" where
  "descendants anc (NavigableString s) = []"
| "descendants anc (Comment s) = []"
| "descendants anc (Tag n a cs) =
     concat (map (\<lambda>c. (Tag n a cs # anc, c) # descendants (Tag n a cs # anc) c) cs)"

definition has_name :: "ustring \<Rightarrow> node \<Rightarrow> bool" where
  "has_name nm n = (case n of Tag n' a cs \<Rightarrow> n' = nm | _ \<Rightarrow> False)"

definition attr :: "ustring \<Rightarrow> node \<Rightarrow> ustring option" where
  "attr k n = (case n of Tag n' a cs \<Rightarrow> map_of a k | _ \<Rightarrow> None)"

text \<open>The whitespace-separated tokens of an attribute value.\<close>

fun tokens :: "ustring \<Rightarrow> ustring \<Rightarrow> ustring list" where
  "tokens cur [] = (if cur = [] then [] else [cur])"
| "tokens cur (c # cs) =
     (if is_space c then (if cur = [] then tokens [] cs else cur # tokens [] cs)
      else tokens (cur @ [c]) cs)"

text \<open>
  \<open>class_=v\<close>: the class attribute is a list of tokens; a tag matches when one token is
  \<open>v\<close>, or when the tokens joined by single blanks are \<open>v\<close>.
\<close>

definition has_class :: "ustring \<Rightarrow> node \<Rightarrow> bool" where
  "has_class v n =
     (case attr (ascii ''class'') n of
        None \<Rightarrow> False
      | Some cv \<Rightarrow> v \<in> set (tokens [] cv) \<or> str_join (ascii '' '') (tokens [] cv) = v)"

definition has_id :: "ustring \<Rightarrow> node \<Rightarrow> bool" where
  "has_id v n \<longleftrightarrow> attr (ascii ''id'') n = Some v"

text \<open>\<open>tag.string\<close>: the single string of a tag, through single-child tags.\<close>

fun tag_string :: "node \<Rightarrow> ustring option" where
  "tag_string (Tag n a [NavigableString s]) = Some s"
| "tag_string (Tag n a [Comment s]) = Some s"
| "tag_string (Tag n a [Tag n' a' cs]) = tag_string (Tag n' a' cs)"
| "tag_string _ = None"

text \<open>
  \<open>string=lambda x: x and label in x\<close>: the tag has a single string, it is not empty and
  the label occurs in it.
\<close>

definition string_contains :: "ustring \<Rightarrow> node \<Rightarrow> bool" where
  "string_contains label n =
     (case tag_string n of None \<Rightarrow> False | Some x \<Rightarrow> x \<noteq> [] \<and> sublist label x)"

text \<open>\<open>soup.find(...)\<close>: the first match in document order, or \<open>None\<close>.\<close>

definition soup_find :: "(node \<Rightarrow> bool) \<Rightarrow> node \<Rightarrow> located option" where
  "soup_find p soup = find (\<lambda>(anc, n). p n) (descendants [] soup)"

definition find_all :: "(node \<Rightarrow> bool) \<Rightarrow> node \<Rightarrow> node list" where
  "find_all p n = map snd (filter (\<lambda>(anc, m). p m) (descendants [] n))"

definition find_parent :: "ustring \<Rightarrow> located \<Rightarrow> node option" where
  "find_parent nm row = find (has_name nm) (fst row)"

section \<open>Row-sum aggregator\<close>

text \<open>
  The loop of \<open>_sum_row\<close> over the cells, with the running \<open>total\<close> as its state. A
  \<open>ValueError\<close> of \<open>float\<close> is caught and the cell skipped; any other error would leave
  the function.
\<close>

fun sum_cells :: "pyfloat \<Rightarrow> node list \<Rightarrow> py_error + pyfloat" where
  "sum_cells tot [] = Inr tot"
| "sum_cells tot (cell # cells) =
     (let val = get_text [] cell
      in if val = [] then sum_cells tot cells
         else case float_of (str_replace (ascii '','') (ascii ''.'')
                      (str_replace (ascii ''.'') [] val)) of
                Inr v \<Rightarrow> sum_cells (fadd tot v) cells
              | Inl e \<Rightarrow> if is_value_error e then sum_cells tot cells else Inl e)"

text \<open>\<open>parent.find_all("td", class_="damtotaltd")\<close> keeps the cells with this test.\<close>

definition total_cell :: "node \<Rightarrow> bool" where
  "total_cell n \<longleftrightarrow> has_name (ascii ''td'') n \<and> has_class (ascii ''damtotaltd'') n"

definition sum_row :: "located option \<Rightarrow> py_error + pyfloat" where
  "sum_row row =
     (case row of
        None \<Rightarrow> Inr (Fin 0)
      | Some r \<Rightarrow>
          (case find_parent (ascii ''tr'') r of
             None \<Rightarrow> Inr (Fin 0)
           | Some parent \<Rightarrow> sum_cells (Fin 0) (find_all total_cell parent)))"

section \<open>Fill levels of the four cities\<close>

definition istanbul :: ustring where
  "istanbul = 304 # ascii ''stanbul''"

definition bursa :: ustring where
  "bursa = ascii ''Bursa''"

definition izmir :: ustring where
  "izmir = 304 # ascii ''zmir''"

definition ankara :: ustring where
  "ankara = ascii ''Ankara''"

text \<open>The two row labels of the Izmir table, with the dotless i (305) and the o umlaut (246).\<close>

definition label_toplam :: ustring where
  "label_toplam = ascii ''Kullan'' @ [305] @ ascii ''labilir g'' @ [246] @ ascii ''l su hacmi''"

definition label_kullanilabilir :: ustring where
  "label_kullanilabilir = ascii ''Kullan'' @ [305] @ ascii ''labilir su hacmi''"

text \<open>The text of a found node, or the empty string: \<open>r.get_text(strip=True) if r else ""\<close>.\<close>

definition text_of :: "located option \<Rightarrow> ustring" where
  "text_of r = (case r of None \<Rightarrow> [] | Some (anc, n) \<Rightarrow> get_text [] n)"

text \<open>
  \<open>round(kullanilabilir_sum / toplam_sum * 100, 2) if toplam_sum else 0.0\<close>
\<close>

definition izm_ratio :: "pyfloat \<Rightarrow> pyfloat \<Rightarrow> py_error + pyfloat" where
  "izm_ratio kullanilabilir_sum toplam_sum =
     (if truthy toplam_sum
      then (case py_truediv kullanilabilir_sum toplam_sum of
              Inl e \<Rightarrow> Inl e
            | Inr q \<Rightarrow> Inr (py_round2 (fmul q (Fin 100))))
      else Inr (Fin 0))"

text \<open>The five lookups of \<open>scrape_levels\<close>.\<close>

definition find_ist :: "node \<Rightarrow> located option" where
  "find_ist soup1 =
     soup_find (\<lambda>n. has_name (ascii ''div'') n \<and> has_class (ascii ''text-4xl font-bold absolute'') n)
       soup1"

definition find_bur :: "node \<Rightarrow> located option" where
  "find_bur soup2 =
     soup_find (\<lambda>n. has_name (ascii ''span'') n \<and> has_id (ascii ''baraj-doluluk-1-info'') n) soup2"

definition find_toplam :: "node \<Rightarrow> located option" where
  "find_toplam soup3 =
     soup_find (\<lambda>n. has_name (ascii ''span'') n \<and> string_contains label_toplam n) soup3"

definition find_kullanilabilir :: "node \<Rightarrow> located option" where
  "find_kullanilabilir soup3 =
     soup_find (\<lambda>n. has_name (ascii ''span'') n \<and> string_contains label_kullanilabilir n) soup3"

definition find_ank :: "node \<Rightarrow> located option" where
  "find_ank soup4 =
     soup_find (\<lambda>n. has_name (ascii ''label'') n \<and> has_id (ascii ''LabelBarajOrani'') n) soup4"

text \<open>The decimal digits of a natural number.\<close>

fun digits_of :: "nat \<Rightarrow> ustring" where
  "digits_of n = (if n < 10 then [48 + n] else digits_of (n div 10) @ [48 + n mod 10])"

declare digits_of.simps [simp del]

text \<open>
  \<open>f"{x:.2f}"\<close>: the exact value rounded to two decimals, ties to even, in fixed-point
  notation; \<open>inf\<close>, \<open>-inf\<close> and \<open>nan\<close> for the other floats. (A negative zero, which the
  model does not tell from zero, would print with a minus sign.)
\<close>

definition format_2f :: "pyfloat \<Rightarrow> ustring" where
  "format_2f x =
     (case x of
        Fin a \<Rightarrow>
          (let q = nat (round_half_even (\<bar>a\<bar> * 100))
           in (if a < 0 then [45] else []) @ digits_of (q div 100) @ [46]
              @ [48 + q mod 100 div 10, 48 + q mod 10])
      | PInf \<Rightarrow> ascii ''inf''
      | NInf \<Rightarrow> ascii ''-inf''
      | NaN \<Rightarrow> ascii ''nan'')"

text \<open>The progress line of a city: \<open>f"<city> okundu: %{x:.2f}"\<close>.\<close>

definition progress :: "ustring \<Rightarrow> pyfloat \<Rightarrow> ustring" where
  "progress city x = city @ ascii '' okundu: %'' @ format_2f x"

text \<open>
  Standard output, as \<open>print\<close> sees it: for each line, the exception that writing it
  raises, if any (a \<open>UnicodeEncodeError\<close> when the encoding of the stream lacks a
  character of the line, an \<open>OSError\<close> when the stream is broken).
\<close>

type_synonym stdout = "ustring \<Rightarrow> py_error option"

text \<open>
  A browser session, as \<open>scrape_levels\<close> uses it: the exception, if any, that
  \<open>_new_headless_driver()\<close>, \<open>get(url)\<close> and \<open>quit()\<close> raise, and what
  \<open>BeautifulSoup(page_source, "html.parser")\<close> gives, the parsed document or an exception.
\<close>

record session =
  new_headless_driver :: "py_error option"
  get :: "py_error option"
  page_source :: "py_error + node"
  quit :: "py_error option"

record browsers =
  drv_ist :: session
  drv_bur :: session
  drv_ank :: session
  drv_izm :: session

text \<open>The first exception of a sequence of calls.\<close>

fun first_raised :: "py_error option list \<Rightarrow> py_error option" where
  "first_raised [] = None"
| "first_raised (Some e # calls) = Some e"
| "first_raised (None # calls) = first_raised calls"

text \<open>
  The body of \<open>scrape_levels\<close> after the four navigations: each page read and parsed in
  turn, its value computed and its progress line printed, then the dictionary, in the
  order of the literal. An exception of a page read or of a \<open>print\<close> leaves the body.
\<close>

definition scrape_pages ::
  "stdout \<Rightarrow> py_error + node \<Rightarrow> py_error + node \<Rightarrow> py_error + node \<Rightarrow> py_error + node
     \<Rightarrow> py_error + (ustring \<times> pyfloat) list" where
  "scrape_pages out page1 page2 page3 page4 =
     (case page1 of
        Inl e \<Rightarrow> Inl e
      | Inr soup1 \<Rightarrow>
     (case parse_percentage (PyStr (text_of (find_ist soup1))) (Fin 0) of
        Inl e \<Rightarrow> Inl e
      | Inr ist \<Rightarrow>
     (case out (progress istanbul ist) of
        Some e \<Rightarrow> Inl e
      | None \<Rightarrow>
     (case page2 of
        Inl e \<Rightarrow> Inl e
      | Inr soup2 \<Rightarrow>
     (case parse_percentage (PyStr (text_of (find_bur soup2))) (Fin 0) of
        Inl e \<Rightarrow> Inl e
      | Inr bur \<Rightarrow>
     (case out (progress bursa bur) of
        Some e \<Rightarrow> Inl e
      | None \<Rightarrow>
     (case page3 of
        Inl e \<Rightarrow> Inl e
      | Inr soup3 \<Rightarrow>
     (case sum_row (find_toplam soup3) of
        Inl e \<Rightarrow> Inl e
      | Inr toplam_sum \<Rightarrow>
     (case sum_row (find_kullanilabilir soup3) of
        Inl e \<Rightarrow> Inl e
      | Inr kullanilabilir_sum \<Rightarrow>
     (case izm_ratio kullanilabilir_sum toplam_sum of
        Inl e \<Rightarrow> Inl e
      | Inr izm \<Rightarrow>
     (case out (progress izmir izm) of
        Some e \<Rightarrow> Inl e
      | None \<Rightarrow>
     (case page4 of
        Inl e \<Rightarrow> Inl e
      | Inr soup4 \<Rightarrow>
     (case parse_percentage (PyStr (text_of (find_ank soup4))) (Fin 0) of
        Inl e \<Rightarrow> Inl e
      | Inr ank \<Rightarrow>
     (case out (progress ankara ank) of
        Some e \<Rightarrow> Inl e
      | None \<Rightarrow>
          Inr [(istanbul, ist), (bursa, bur), (izmir, izm), (ankara, ank)]))))))))))))))"

text \<open>
  \<open>scrape_levels\<close>: the four browsers are launched before the \<open>try\<close>, so a failed launch
  leaves the function at once. Inside the \<open>try\<close> come the four navigations, in the order
  Istanbul, Bursa, Ankara, Izmir, and the body above. The \<open>finally\<close> clause then quits the
  four browsers in that order, whatever the outcome of the \<open>try\<close>; an exception of a
  \<open>quit()\<close> replaces that outcome, also a dictionary about to be returned.
\<close>

definition scrape_levels :: "stdout \<Rightarrow> browsers \<Rightarrow> py_error + (ustring \<times> pyfloat) list" where
  "scrape_levels out b =
     (case first_raised [new_headless_driver (drv_ist b), new_headless_driver (drv_bur b),
                         new_headless_driver (drv_ank b), new_headless_driver (drv_izm b)] of
        Some e \<Rightarrow> Inl e
      | None \<Rightarrow>
          (let outcome =
                 (case first_raised [get (drv_ist b), get (drv_bur b), get (drv_ank b),
                                     get (drv_izm b)] of
                    Some e \<Rightarrow> Inl e
                  | None \<Rightarrow>
                      scrape_pages out (page_source (drv_ist b)) (page_source (drv_bur b))
                        (page_source (drv_izm b)) (page_source (drv_ank b)))
           in (case first_raised [quit (drv_ist b), quit (drv_bur b), quit (drv_ank b),
                                  quit (drv_izm b)] of
                 Some e \<Rightarrow> Inl e
               | None \<Rightarrow> outcome)))"

section \<open>Forecast extractor\<close>

record forecast_day =
  day_index :: nat
  card_text :: ustring
  high_c :: "int option"
  low_c :: "int option"
  precip_pct :: "int option"

text \<open>
  \<open>\d{1,2}\<close> followed by the character \<open>t\<close>, matched at the start of the string: two
  digits are tried first. The result is the group and the rest after the match.
\<close>

definition match_num :: "nat \<Rightarrow> ustring \<Rightarrow> (ustring \<times> ustring) option" where
  "match_num t s =
     (case s of
        a # b # c # rest \<Rightarrow>
          if is_digit a \<and> is_digit b \<and> c = t then Some ([a, b], rest)
          else if is_digit a \<and> b = t then Some ([a], c # rest)
          else None
      | [a, b] \<Rightarrow> if is_digit a \<and> b = t then Some ([a], []) else None
      | _ \<Rightarrow> None)"

text \<open>
  \<open>(-?\d{1,2})\<degree>\<close> at the start of the string; the degree sign is code point 176. The
  optional minus is tried first, then the match without it.
\<close>

definition match_deg :: "ustring \<Rightarrow> (ustring \<times> ustring) option" where
  "match_deg s =
     (case s of
        [] \<Rightarrow> None
      | c # cs \<Rightarrow>
          if c = 45
          then (case match_num 176 cs of
                  Some (g, rest) \<Rightarrow> Some (45 # g, rest)
                | None \<Rightarrow> match_num 176 s)
          else match_num 176 s)"

text \<open>\<open>re.findall\<close> of the degree pattern: the groups of the matches, left to right.\<close>

function findall_deg :: "ustring \<Rightarrow> ustring list" where
  "findall_deg [] = []"
| "findall_deg (c # cs) =
     (case match_deg (c # cs) of
        Some (g, rest) \<Rightarrow> g # findall_deg rest
      | None \<Rightarrow> findall_deg cs)"
  by pat_completeness auto
termination
  by (relation "measure length")
    (auto simp: match_deg_def match_num_def split: list.splits if_splits option.splits)

text \<open>\<open>re.search\<close> of \<open>(\d{1,2})%\<close>: the group of the leftmost match; 37 is the percent sign.\<close>

fun search_pct :: "ustring \<Rightarrow> ustring option" where
  "search_pct [] = None"
| "search_pct (c # cs) =
     (case match_num 37 (c # cs) of
        Some (g, rest) \<Rightarrow> Some g
      | None \<Rightarrow> search_pct cs)"

text \<open>\<open>int(g)\<close> where a group was found, \<open>None\<close> (no error) where none was.\<close>

definition int_of_group :: "ustring option \<Rightarrow> py_error + int option" where
  "int_of_group g =
     (case g of
        None \<Rightarrow> Inr None
      | Some s \<Rightarrow> (case py_int s of None \<Rightarrow> Inl ValueError | Some v \<Rightarrow> Inr (Some v)))"

definition nth_opt :: "'a list \<Rightarrow> nat \<Rightarrow> 'a option" where
  "nth_opt xs i = (if i < length xs then Some (xs ! i) else None)"

text \<open>The body of the loop over the cards, on the visible text of card \<open>i\<close>.\<close>

definition parse_text :: "nat \<Rightarrow> ustring \<Rightarrow> py_error + forecast_day" where
  "parse_text i txt =
     (let highs = findall_deg txt
      in case int_of_group (nth_opt highs 0) of
           Inl e \<Rightarrow> Inl e
         | Inr h \<Rightarrow>
        (case int_of_group (nth_opt highs 1) of
           Inl e \<Rightarrow> Inl e
         | Inr l \<Rightarrow>
        (case int_of_group (search_pct txt) of
           Inl e \<Rightarrow> Inl e
         | Inr precip \<Rightarrow>
             Inr \<lparr>day_index = i + 1, card_text = take 200 txt,
                  high_c = h, low_c = l, precip_pct = precip\<rparr>)))"

text \<open>\<open>c.get_text(" ", strip=True)\<close>\<close>

definition visible_text :: "node \<Rightarrow> ustring" where
  "visible_text c = get_text (ascii '' '') c"

definition parse_card :: "nat \<Rightarrow> node \<Rightarrow> py_error + forecast_day" where
  "parse_card i c = parse_text i (visible_text c)"

fun parse_cards :: "nat \<Rightarrow> node list \<Rightarrow> py_error + forecast_day list" where
  "parse_cards i [] = Inr []"
| "parse_cards i (c # cs) =
     (case parse_card i c of
        Inl e \<Rightarrow> Inl e
      | Inr d \<Rightarrow> (case parse_cards (i + 1) cs of Inl e \<Rightarrow> Inl e | Inr ds \<Rightarrow> Inr (d # ds)))"

definition selectors :: "ustring list" where
  "selectors =
     [ascii ''a.daily-forecast-card'', ascii ''div.daily-forecast-card'',
      ascii ''li.daily-forecast-card'', ascii ''[data-qa=\"daily-card\"]'',
      ascii ''a[data-qa=\"daily-card\"]'', ascii ''li[data-qa=\"daily-card\"]'',
      ascii ''div.forecast-list a'', ascii ''li.daily-card'', ascii ''div.daily-list a'']"

text \<open>
  The selector loop: \<open>cards\<close> is overwritten by each selector's matches, and the loop
  stops at the first selector with seven matches or more. The parsed document is
  represented by its \<open>select\<close> method.
\<close>

fun select_cards :: "(ustring \<Rightarrow> node list) \<Rightarrow> ustring list \<Rightarrow> node list \<Rightarrow> node list" where
  "select_cards bs_select [] cards = cards"
| "select_cards bs_select (sel # sels) cards =
     (let cards' = bs_select sel
      in if 7 \<le> length cards' then cards' else select_cards bs_select sels cards')"

definition chosen_cards :: "(ustring \<Rightarrow> node list) \<Rightarrow> node list" where
  "chosen_cards bs_select = select_cards bs_select selectors []"

definition parse_accu_15day :: "(ustring \<Rightarrow> node list) \<Rightarrow> py_error + forecast_day list" where
  "parse_accu_15day bs_select = parse_cards 0 (take 15 (chosen_cards bs_select))"

section \<open>The specification's reading of the operations\<close>

text \<open>
  The percentage parser in the specification's words: percent signs are stripped, the
  decimal comma becomes a point, whitespace is trimmed.
\<close>

definition spec_clean :: "ustring \<Rightarrow> ustring" where
  "spec_clean s = str_strip (map (\<lambda>c. if c = 44 then 46 else c) (filter (\<lambda>c. c \<noteq> 37) s))"

text \<open>
  The words \<open>inf\<close>, \<open>infinity\<close> and \<open>nan\<close> in any case, with an optional sign: the texts
  without a digit that \<open>float\<close> accepts all the same.
\<close>

definition names_inf_or_nan :: "ustring \<Rightarrow> bool" where
  "names_inf_or_nan s =
     (case split_sign (strip_by is_float_space s) of (neg, u) \<Rightarrow>
        map ascii_lower u \<in> {ascii ''inf'', ascii ''infinity'', ascii ''nan''})"

text \<open>
  The number in a table cell, in the specification's words: thousands dots removed, the
  decimal comma normalised, the rest parsed; \<open>None\<close> for a cell that does not parse.
\<close>

definition text_number :: "ustring \<Rightarrow> pyfloat option" where
  "text_number t = py_float (map (\<lambda>c. if c = 44 then 46 else c) (filter (\<lambda>c. c \<noteq> 46) t))"

definition cell_number :: "node \<Rightarrow> pyfloat option" where
  "cell_number cell = text_number (get_text [] cell)"

text \<open>
  Printing the progress lines of a list of entries in order: the first exception, if any.
\<close>

fun report :: "stdout \<Rightarrow> (ustring \<times> pyfloat) list \<Rightarrow> py_error option" where
  "report out [] = None"
| "report out ((city, x) # kvs) =
     (case out (progress city x) of Some e \<Rightarrow> Some e | None \<Rightarrow> report out kvs)"




section \<open>Tokens of the forecast patterns\<close>

text \<open>Some digit of the text is directly followed by the character \<open>t\<close>.\<close>

fun digit_before :: "nat \<Rightarrow> ustring \<Rightarrow> bool" where
  "digit_before t (a # b # cs) = ((is_digit a \<and> b = t) \<or> digit_before t (b # cs))"
| "digit_before t [a] = False"
| "digit_before t [] = False"

text \<open>A group of the degree pattern: one or two digits, with or without a minus in front.\<close>

text \<open>Two digits of the text, one after the other, are directly followed by \<open>t\<close>.\<close>

fun two_digits_before :: "nat \<Rightarrow> ustring \<Rightarrow> bool" where
  "two_digits_before t (a # b # c # cs) =
     ((is_digit a \<and> is_digit b \<and> c = t) \<or> two_digits_before t (b # c # cs))"
| "two_digits_before t [a, b] = False"
| "two_digits_before t [a] = False"
| "two_digits_before t [] = False"

definition digit_group :: "ustring \<Rightarrow> bool" where
  "digit_group g \<longleftrightarrow> (case g of [a] \<Rightarrow> is_digit a | [a, b] \<Rightarrow> is_digit a \<and> is_digit b | _ \<Rightarrow> False)"

definition signed_group :: "ustring \<Rightarrow> bool" where
  "signed_group g \<longleftrightarrow> digit_group g \<or> (case g of [] \<Rightarrow> False | c # g' \<Rightarrow> c = 45 \<and> digit_group g')"

section \<open>Example inputs\<close>

text \<open>
  A table row with a label cell, three cells of the total class holding \<open>1.234,5\<close>, \<open>bad\<close>
  and \<open>765,0\<close>, and one cell of another class; the label found in it; a document without
  any tag; a run in which no browser call fails and the four pages are such documents.
\<close>

definition example_row :: node where
  "example_row =
     Tag (ascii ''tr'') []
       [Tag (ascii ''td'') [] [Tag (ascii ''span'') [] [NavigableString label_toplam]],
        Tag (ascii ''td'') [(ascii ''class'', ascii ''damtotaltd'')] [NavigableString (ascii '' 1.234,5 '')],
        Tag (ascii ''td'') [(ascii ''class'', ascii ''text-right damtotaltd'')] [NavigableString (ascii ''bad'')],
        Tag (ascii ''td'') [(ascii ''class'', ascii ''damtotaltd'')] [NavigableString (ascii ''765,0'')],
        Tag (ascii ''td'') [(ascii ''class'', ascii ''damtd'')] [NavigableString (ascii ''100,0'')]]"

definition example_label :: located where
  "example_label =
     ([Tag (ascii ''td'') [] [Tag (ascii ''span'') [] [NavigableString label_toplam]], example_row],
      Tag (ascii ''span'') [] [NavigableString label_toplam])"


text \<open>
  A standard output that takes every line (UTF-8, say), and one with a strict ASCII
  encoding.
\<close>

definition any_stdout :: stdout where
  "any_stdout line = None"



text \<open>
  The card text of the specification, \<open>Persembe 24\<degree> 15\<degree> %20 yagmur\<close> with an s cedilla
  (351) and a soft g (287), and the same text with the percent sign after the number; a
  card with that visible text, spread over several tags; a card reading
  \<open>Cuma 9 \<degree> 100%\<close>; a card reading \<open>5% 100%\<close>; a document whose last selector matches the
  first two of these cards, with the records they give; and a document whose first three
  selectors match 3, 5 and 12 cards.
\<close>

definition thursday :: ustring where
  "thursday = [80, 101, 114, 351, 101, 109, 98, 101, 32, 50, 52, 176, 32, 49, 53, 176, 32,
     37, 50, 48, 32, 121, 97, 287, 109, 117, 114]"

definition thursday_suffixed :: ustring where
  "thursday_suffixed = [80, 101, 114, 351, 101, 109, 98, 101, 32, 50, 52, 176, 32, 49, 53, 176, 32,
     50, 48, 37, 32, 121, 97, 287, 109, 117, 114]"

definition thursday_card :: node where
  "thursday_card =
     Tag (ascii ''a'') [(ascii ''class'', ascii ''daily-forecast-card'')]
       [Tag (ascii ''span'') [] [NavigableString [80, 101, 114, 351, 101, 109, 98, 101]],
        Tag (ascii ''span'') [] [NavigableString [32, 50, 52, 176, 10]],
        NavigableString [32, 32],
        Tag (ascii ''span'') [] [NavigableString [49, 53, 176]],
        Tag (ascii ''div'') [] [NavigableString [10, 37, 50, 48, 32, 121, 97, 287, 109, 117, 114, 32]]]"

definition thursday_suffixed_card :: node where
  "thursday_suffixed_card = Tag (ascii ''a'') [] [NavigableString thursday_suffixed]"

definition friday_card :: node where
  "friday_card =
     Tag (ascii ''a'') [] [NavigableString (ascii ''Cuma 9''), NavigableString [176],
       Tag (ascii ''p'') [] [NavigableString (ascii ''100%'')]]"

definition shower_card :: node where
  "shower_card = Tag (ascii ''a'') [] [NavigableString (ascii ''5% 100%'')]"

definition week_bs :: "ustring \<Rightarrow> node list" where
  "week_bs sel = (if sel = ascii ''div.daily-list a'' then [thursday_card, friday_card] else [])"

definition fallback_bs :: "ustring \<Rightarrow> node list" where
  "fallback_bs sel =
     (if sel = ascii ''a.daily-forecast-card'' then replicate 3 friday_card
      else if sel = ascii ''div.daily-forecast-card'' then replicate 5 friday_card
      else if sel = ascii ''li.daily-forecast-card'' then replicate 12 thursday_card
      else [])"

definition week_out :: "forecast_day list" where
  "week_out =
     [\<lparr>day_index = 1, card_text = thursday, high_c = Some 24, low_c = Some 15, precip_pct = None\<rparr>,
      \<lparr>day_index = 2, card_text = ascii ''Cuma 9'' @ [32, 176, 32] @ ascii ''100%'',
         high_c = None, low_c = None, precip_pct = Some 0\<rparr>]"

section \<open>Evaluation rules\<close>

lemma bit_length_num:
  "bit_length 0 = 0" "bit_length 1 = 1" "bit_length (Suc 0) = 1"
  "bit_length (numeral k) = Suc (bit_length (numeral k div 2))"
  by (simp_all add: bit_length.simps)

lemma floor_rat_num: "\<lfloor>numeral a / numeral b :: rat\<rfloor> = numeral a div numeral b"
  by (metis floor_divide_of_int_eq of_int_numeral)

lemma ceiling_rat_num: "\<lceil>numeral a / numeral b :: rat\<rceil> = - ((- numeral a) div numeral b)"
  by (metis ceiling_def floor_divide_of_int_eq minus_divide_left of_int_minus of_int_numeral)

text \<open>Below the Arabic-Indic digits (1632) the only decimal digits are the ASCII ones.\<close>

lemma decimal_low: "c < 1632 \<Longrightarrow> decimal c = (if 48 \<le> c \<and> c < 58 then Some (c - 48) else None)"
  by (simp add: decimal_def digit_zeros_def)

lemma is_digit_low: "c < 1632 \<Longrightarrow> is_digit c \<longleftrightarrow> 48 \<le> c \<and> c < 58"
  by (simp add: is_digit_def decimal_low)

lemma ascii_simps: "ascii [] = []" "ascii (c # cs) = of_char c # ascii cs"
  by (simp_all add: ascii_def)

lemmas float_eval =
  ilog2_def bit_length_num round_double_def round_mag_def round_half_even_def Let_def
  floor_rat_num ceiling_rat_num decimal_low ascii_simps py_float_def split_sign_def
  strip_by_def is_float_space_def is_space_def floatnumber_def parse_mantissa_def
  parse_exponent_def no_exp_mark_def digits_value_def ascii_lower_def float_of_def

section \<open>Replacing a single character\<close>

lemma str_replace_single:
  "str_replace [c] new s = concat (map (\<lambda>x. if x = c then new else [x]) s)"
proof (induction s)
  case Nil
  show ?case by (simp add: str_replace.simps [of "[c]" new "[]"])
next
  case (Cons x xs)
  show ?case
    using Cons.IH by (auto simp: str_replace.simps [of "[c]" new "x # xs"])
qed

lemma str_replace_delete: "str_replace [c] [] s = filter (\<lambda>x. x \<noteq> c) s"
  by (induction s) (simp_all add: str_replace_single)

lemma str_replace_subst: "str_replace [c] [c'] s = map (\<lambda>x. if x = c then c' else x) s"
  by (induction s) (simp_all add: str_replace_single)

lemma set_strip_by: "set (strip_by p s) \<subseteq> set s"
proof -
  have "set (dropWhile p (rev (dropWhile p s))) \<subseteq> set (rev (dropWhile p s))"
    by (rule set_dropWhileD [THEN subsetI])
  also have "\<dots> \<subseteq> set s"
    by (auto dest: set_dropWhileD)
  finally show ?thesis by (simp add: strip_by_def)
qed

section \<open>Properties of the percentage parser\<close>

lemma clean_str_spec: "clean_str s = spec_clean s"
  by (simp add: clean_str_def spec_clean_def ascii_simps str_replace_delete str_replace_subst)

lemma cleaned_str: "cleaned (PyStr s) = Inr (clean_str s)"
  by (simp add: cleaned_def clean_str_def)

lemma parse_percentage_str:
  "parse_percentage (PyStr s) d = Inr (case py_float (clean_str s) of None \<Rightarrow> d | Some v \<Rightarrow> v)"
  by (simp add: parse_percentage_def cleaned_str float_of_def is_value_error_def
      split: option.splits)

lemma parse_percentage_none: "parse_percentage PyNone d = Inr d"
  by (simp add: parse_percentage_def cleaned_def)

lemma digitpart_digit: "digitpart s = Some ds \<Longrightarrow> \<exists>c\<in>set s. is_digit c"
  by (cases s rule: digitpart.cases) (auto simp: is_digit_def split: option.splits)

lemma parse_mantissa_digit:
  assumes "parse_mantissa m = Some r" shows "\<exists>c\<in>set m. is_digit c"
proof -
  let ?ip = "takeWhile (\<lambda>c. c \<noteq> 46) m" and ?r = "dropWhile (\<lambda>c. c \<noteq> 46) m"
  have ip: "set ?ip \<subseteq> set m" by (auto dest: set_takeWhileD)
  have fp: "set (tl ?r) \<subseteq> set m"
    by (metis (no_types, lifting) list.set_sel(2) set_dropWhileD subsetI tl_Nil)
  from assms consider ds where "digitpart ?ip = Some ds" | ds where "digitpart (tl ?r) = Some ds"
    by (auto simp: parse_mantissa_def Let_def split: if_splits option.splits)
  then show ?thesis
  proof cases
    case 1
    then show ?thesis using digitpart_digit ip by blast
  next
    case 2
    then show ?thesis using digitpart_digit fp by blast
  qed
qed

lemma floatnumber_digit:
  assumes "floatnumber u = Some q" shows "\<exists>c\<in>set u. is_digit c"
proof -
  from assms obtain r where "parse_mantissa (takeWhile no_exp_mark u) = Some r"
    by (auto simp: floatnumber_def Let_def split: option.splits)
  then obtain c where "c \<in> set (takeWhile no_exp_mark u)" "is_digit c"
    using parse_mantissa_digit by blast
  then show ?thesis by (auto dest: set_takeWhileD)
qed

lemma split_sign_set: "split_sign s = (neg, u) \<Longrightarrow> set u \<subseteq> set s"
  by (auto simp: split_sign_def split: list.splits if_splits)

lemma py_float_digit:
  assumes "py_float s = Some v" and "\<not> names_inf_or_nan s"
  shows "\<exists>c\<in>set s. is_digit c"
proof -
  obtain neg u where su: "split_sign (strip_by is_float_space s) = (neg, u)"
    by (cases "split_sign (strip_by is_float_space s)")
  with assms have "floatnumber u \<noteq> None"
    by (auto simp: py_float_def names_inf_or_nan_def Let_def split: if_splits)
  then obtain c where "c \<in> set u" "is_digit c"
    using floatnumber_digit by blast
  moreover have "set u \<subseteq> set s"
    using split_sign_set [OF su] set_strip_by [of is_float_space s] by blast
  ultimately show ?thesis by blast
qed

lemma not_digit_46: "\<not> is_digit 46"
  by (simp add: is_digit_low)

lemma spec_clean_set: "set (spec_clean s) \<subseteq> insert 46 (set s)"
  using set_strip_by [of is_space "map (\<lambda>c. if c = 44 then 46 else c) (filter (\<lambda>c. c \<noteq> 37) s)"]
  by (auto simp: spec_clean_def str_strip_def)

lemma py_float_no_digit:
  assumes "\<forall>c\<in>set s. \<not> is_digit c" and "\<not> names_inf_or_nan (clean_str s)"
  shows "py_float (clean_str s) = None"
proof (rule ccontr)
  assume "py_float (clean_str s) \<noteq> None"
  then obtain v where "py_float (clean_str s) = Some v" by blast
  then obtain c where "c \<in> set (clean_str s)" "is_digit c"
    using py_float_digit assms(2) by blast
  then show False
    using spec_clean_set [of s] assms(1) not_digit_46 by (auto simp: clean_str_spec)
qed

lemma py_float_names:
  assumes "names_inf_or_nan s"
  shows "py_float s = Some PInf \<or> py_float s = Some NInf \<or> py_float s = Some NaN"
proof -
  obtain neg u where su: "split_sign (strip_by is_float_space s) = (neg, u)"
    by (cases "split_sign (strip_by is_float_space s)")
  with assms have "map ascii_lower u = ascii ''inf'' \<or> map ascii_lower u = ascii ''infinity''
      \<or> map ascii_lower u = ascii ''nan''"
    by (simp add: names_inf_or_nan_def)
  then show ?thesis
    by (auto simp: py_float_def su Let_def)
qed

lemma float_nan: "py_float (clean_str (ascii ''nan'')) = Some NaN"
  by (simp add: clean_str_spec spec_clean_def str_strip_def strip_by_def is_space_def
      is_float_space_def ascii_simps py_float_def split_sign_def ascii_lower_def)

text \<open>
  C4, as stated, fails: the text \<open>nan\<close> holds no digit and is no number, yet \<open>float\<close> accepts
  it, so the parser returns NaN and not the default.
\<close>

theorem nan_text_counterexample:
  "filter is_digit (ascii ''nan'') = []
   \<and> parse_percentage (PyStr (ascii ''nan'')) (Fin 0) = Inr NaN
   \<and> parse_percentage (PyStr (ascii ''nan'')) (Fin 0) \<noteq> Inr (Fin 0)"
  by (simp add: parse_percentage_str float_nan) (simp add: ascii_simps is_digit_low)

text \<open>
  C4, amended. For every string or \<open>None\<close> and every default \<open>d\<close>, \<open>parse_percentage\<close> returns
  a value and never raises. It returns exactly \<open>d\<close> on \<open>None\<close>, on the empty text, on every
  text that \<open>float\<close> rejects after the cleaning, and so on every text without a decimal
  digit, except those that spell \<open>inf\<close>, \<open>infinity\<close> or \<open>nan\<close> (in any case, with an optional
  sign): on these it returns the infinity or the NaN they name.
\<close>

theorem parse_percentage_never_raises:
  "(\<exists>v. parse_percentage text d = Inr v)
   \<and> (text = PyNone \<longrightarrow> parse_percentage text d = Inr d)
   \<and> (\<forall>s. text = PyStr s \<and> py_float (clean_str s) = None \<longrightarrow> parse_percentage text d = Inr d)
   \<and> (\<forall>s. text = PyStr s \<and> (\<forall>c\<in>set s. \<not> is_digit c) \<and> \<not> names_inf_or_nan (clean_str s)
          \<longrightarrow> parse_percentage text d = Inr d)
   \<and> (text = PyStr [] \<longrightarrow> parse_percentage text d = Inr d)
   \<and> (\<forall>s. text = PyStr s \<and> names_inf_or_nan (clean_str s)
          \<longrightarrow> parse_percentage text d = Inr PInf \<or> parse_percentage text d = Inr NInf
              \<or> parse_percentage text d = Inr NaN)"
proof (intro conjI allI impI)
  show "\<exists>v. parse_percentage text d = Inr v"
    by (cases "text") (simp_all add: parse_percentage_none parse_percentage_str)
next
  assume "text = PyNone"
  then show "parse_percentage text d = Inr d" by (simp add: parse_percentage_none)
next
  fix s assume "text = PyStr s \<and> py_float (clean_str s) = None"
  then show "parse_percentage text d = Inr d" by (simp add: parse_percentage_str)
next
  fix s
  assume "text = PyStr s \<and> (\<forall>c\<in>set s. \<not> is_digit c) \<and> \<not> names_inf_or_nan (clean_str s)"
  then show "parse_percentage text d = Inr d"
    using py_float_no_digit [of s] by (simp add: parse_percentage_str)
next
  assume "text = PyStr []"
  then show "parse_percentage text d = Inr d"
    by (simp add: parse_percentage_str clean_str_spec spec_clean_def str_strip_def float_eval)
next
  fix s assume h: "text = PyStr s \<and> names_inf_or_nan (clean_str s)"
  then have "py_float (clean_str s) = Some PInf \<or> py_float (clean_str s) = Some NInf
      \<or> py_float (clean_str s) = Some NaN"
    using py_float_names by blast
  with h show "parse_percentage text d = Inr PInf \<or> parse_percentage text d = Inr NInf
      \<or> parse_percentage text d = Inr NaN"
    by (auto simp: parse_percentage_str)
qed

lemma abc_not_numeric:
  "(\<forall>c\<in>set (ascii ''abc''). \<not> is_digit c) \<and> \<not> names_inf_or_nan (clean_str (ascii ''abc''))"
  by (simp add: is_digit_low ascii_simps names_inf_or_nan_def clean_str_spec spec_clean_def
      str_strip_def strip_by_def is_space_def is_float_space_def split_sign_def ascii_lower_def)

lemma nan_names: "names_inf_or_nan (clean_str (ascii ''nan''))"
  by (simp add: ascii_simps names_inf_or_nan_def clean_str_spec spec_clean_def
      str_strip_def strip_by_def is_space_def is_float_space_def split_sign_def ascii_lower_def)

theorem parse_percentage_never_raises_witness:
  "parse_percentage PyNone (Fin 7) = Inr (Fin 7)
   \<and> py_float (clean_str (ascii ''abc'')) = None
   \<and> \<not> names_inf_or_nan (clean_str (ascii ''abc''))
   \<and> parse_percentage (PyStr (ascii ''abc'')) (Fin 7) = Inr (Fin 7)
   \<and> parse_percentage (PyStr []) (Fin 7) = Inr (Fin 7)
   \<and> names_inf_or_nan (clean_str (ascii ''nan''))
   \<and> parse_percentage (PyStr (ascii ''nan'')) (Fin 7) = Inr NaN"
  using parse_percentage_never_raises [of PyNone "Fin 7"]
    parse_percentage_never_raises [of "PyStr (ascii ''abc'')" "Fin 7"]
    parse_percentage_never_raises [of "PyStr []" "Fin 7"]
    parse_percentage_never_raises [of "PyStr (ascii ''nan'')" "Fin 7"]
    abc_not_numeric py_float_no_digit [of "ascii ''abc''"] nan_names
  by (simp add: parse_percentage_str float_nan)

lemma clean_73: "spec_clean (ascii ''73,40%'') = ascii ''73.40''"
  by (simp add: spec_clean_def str_strip_def strip_by_def is_space_def ascii_simps)

lemma float_73: "py_float (ascii ''73.40'') = Some (Fin (5165065822640538 / 2 ^ 46))"
  by (simp add: float_eval)

text \<open>
  C5. The parser is the specification's pipeline: percent signs removed, commas turned
  into points, whitespace trimmed, the rest read by \<open>float\<close>; a text that \<open>float\<close> accepts gives
  its value. On \<open>"73,40%"\<close> the result is the double nearest to 73.4, within \<open>1e-9\<close> of it.
\<close>

theorem parse_percentage_well_formed:
  "parse_percentage (PyStr s) d = Inr (case py_float (spec_clean s) of None \<Rightarrow> d | Some v \<Rightarrow> v)
   \<and> (\<forall>v. py_float (spec_clean s) = Some v \<longrightarrow> parse_percentage (PyStr s) d = Inr v)
   \<and> (\<exists>x. parse_percentage (PyStr (ascii ''73,40%'')) d = Inr (Fin x) \<and> \<bar>x - 734 / 10\<bar> \<le> 1 / 10 ^ 9)"
proof (intro conjI allI impI)
  show "parse_percentage (PyStr s) d = Inr (case py_float (spec_clean s) of None \<Rightarrow> d | Some v \<Rightarrow> v)"
    by (simp add: parse_percentage_str clean_str_spec)
next
  fix v assume "py_float (spec_clean s) = Some v"
  then show "parse_percentage (PyStr s) d = Inr v"
    by (simp add: parse_percentage_str clean_str_spec)
next
  have "parse_percentage (PyStr (ascii ''73,40%'')) d = Inr (Fin (5165065822640538 / 2 ^ 46))"
    by (simp add: parse_percentage_str clean_str_spec clean_73 float_73)
  moreover have "\<bar>5165065822640538 / 2 ^ 46 - 734 / 10 :: rat\<bar> \<le> 1 / 10 ^ 9"
    by simp
  ultimately show "\<exists>x. parse_percentage (PyStr (ascii ''73,40%'')) d = Inr (Fin x) \<and> \<bar>x - 734 / 10\<bar> \<le> 1 / 10 ^ 9"
    by blast
qed

theorem parse_percentage_well_formed_witness:
  "py_float (spec_clean (ascii ''73,40%'')) = Some (Fin (5165065822640538 / 2 ^ 46))
   \<and> parse_percentage (PyStr (ascii ''73,40%'')) (Fin 0) = Inr (Fin (5165065822640538 / 2 ^ 46))"
  using parse_percentage_well_formed [of "ascii ''73,40%''" "Fin 0"] clean_73 float_73
  by simp

section \<open>Properties of the row sum and of the ratio\<close>

lemma py_float_empty: "py_float [] = None"
  by (simp add: float_eval)

lemma float_of_cases: "float_of s = (case py_float s of None \<Rightarrow> Inl ValueError | Some v \<Rightarrow> Inr v)"
  by (simp add: float_of_def)

lemma sum_cells_fold:
  "sum_cells tot cells = Inr (foldl fadd tot (List.map_filter cell_number cells))"
proof (induction cells arbitrary: tot)
  case Nil
  show ?case by simp
next
  case (Cons cell cells)
  show ?case
  proof (cases "get_text [] cell = []")
    case True
    then have "cell_number cell = None"
      by (simp add: cell_number_def text_number_def py_float_empty)
    with True Cons.IH show ?thesis
      by simp
  next
    case False
    then show ?thesis
      using Cons.IH
      by (simp add: cell_number_def text_number_def ascii_simps str_replace_delete
          str_replace_subst float_of_cases is_value_error_def Let_def split: option.splits)
  qed
qed

lemma sum_row_some:
  "sum_row (Some r) =
     (case find_parent (ascii ''tr'') r of
        None \<Rightarrow> Inr (Fin 0)
      | Some parent \<Rightarrow> Inr (foldl fadd (Fin 0) (List.map_filter cell_number (find_all total_cell parent))))"
  by (simp add: sum_row_def sum_cells_fold split: option.splits)

lemma sum_row_total: "\<exists>v. sum_row row = Inr v"
  by (cases row) (simp_all add: sum_row_def sum_cells_fold split: option.splits)

lemma map_filter_cell_number:
  "List.map_filter cell_number cells = List.map_filter text_number (map (get_text []) cells)"
  by (induction cells) (simp_all add: cell_number_def split: option.splits)

lemma float_1234: "py_float (ascii ''1234.5'') = Some (Fin (2469 / 2))"
  by (simp add: float_eval)

lemma float_765: "py_float (ascii ''765.0'') = Some (Fin 765)"
  by (simp add: float_eval)

lemma float_bad: "py_float (ascii ''bad'') = None"
  by (simp add: float_eval)

lemma round_1234: "round_double (2469 / 2) = Fin (2469 / 2)"
  by (simp add: float_eval)

lemma round_1999: "round_double (3999 / 2) = Fin (3999 / 2)"
  by (simp add: float_eval)

lemma example_cells_sum:
  assumes "map (get_text []) cells = [ascii ''1.234,5'', ascii ''bad'', ascii ''765,0'']"
  shows "foldl fadd (Fin 0) (List.map_filter cell_number cells) = Fin (3999 / 2)"
proof -
  have a: "text_number (ascii ''1.234,5'') = py_float (ascii ''1234.5'')"
    and b: "text_number (ascii ''bad'') = py_float (ascii ''bad'')"
    and c: "text_number (ascii ''765,0'') = py_float (ascii ''765.0'')"
    by (simp_all add: text_number_def ascii_simps)
  show ?thesis
    by (simp add: map_filter_cell_number assms a b c float_1234 float_765
        float_bad round_1234 round_1999)
qed

text \<open>
  C6. The row sum is \<open>0.0\<close> for an absent label and for a label outside any table row.
  Otherwise it is the left-to-right float sum, from \<open>0.0\<close>, of the numbers of exactly those
  cells of the total class whose text parses after removing the thousands dots and
  normalising the decimal comma; a cell that does not parse adds nothing. A row whose
  total cells read \<open>1.234,5\<close>, \<open>bad\<close>, \<open>765,0\<close> sums to \<open>1999.5\<close>.
\<close>

theorem sum_row_skips_unparseable:
  "sum_row None = Inr (Fin 0)
   \<and> (find_parent (ascii ''tr'') r = None \<longrightarrow> sum_row (Some r) = Inr (Fin 0))
   \<and> (\<forall>parent. find_parent (ascii ''tr'') r = Some parent \<longrightarrow>
         sum_row (Some r) =
           Inr (foldl fadd (Fin 0) (List.map_filter cell_number (find_all total_cell parent))))
   \<and> (\<forall>parent. find_parent (ascii ''tr'') r = Some parent
          \<and> map (get_text []) (find_all total_cell parent)
              = [ascii ''1.234,5'', ascii ''bad'', ascii ''765,0'']
        \<longrightarrow> sum_row (Some r) = Inr (Fin (19995 / 10)))"
proof (intro conjI allI impI)
  show "sum_row None = Inr (Fin 0)" by (simp add: sum_row_def)
next
  assume "find_parent (ascii ''tr'') r = None"
  then show "sum_row (Some r) = Inr (Fin 0)" by (simp add: sum_row_some)
next
  fix parent assume "find_parent (ascii ''tr'') r = Some parent"
  then show "sum_row (Some r) =
      Inr (foldl fadd (Fin 0) (List.map_filter cell_number (find_all total_cell parent)))"
    by (simp add: sum_row_some)
next
  fix parent
  assume h: "find_parent (ascii ''tr'') r = Some parent
    \<and> map (get_text []) (find_all total_cell parent) = [ascii ''1.234,5'', ascii ''bad'', ascii ''765,0'']"
  then have "foldl fadd (Fin 0) (List.map_filter cell_number (find_all total_cell parent)) = Fin (3999 / 2)"
    by (simp add: example_cells_sum)
  with h show "sum_row (Some r) = Inr (Fin (19995 / 10))"
    by (simp add: sum_row_some)
qed

lemmas dom_eval =
  ascii_simps find_parent_def find_all_def has_name_def has_class_def attr_def total_cell_def
  get_text_def str_strip_def strip_by_def is_space_def

lemma example_row_parent: "find_parent (ascii ''tr'') example_label = Some example_row"
  by (simp add: example_label_def example_row_def dom_eval)

lemma example_row_cells:
  "map (get_text []) (find_all total_cell example_row) = [ascii ''1.234,5'', ascii ''bad'', ascii ''765,0'']"
  by (simp add: example_row_def dom_eval)

theorem sum_row_skips_unparseable_witness:
  "find_parent (ascii ''tr'') example_label = Some example_row
   \<and> map (get_text []) (find_all total_cell example_row) = [ascii ''1.234,5'', ascii ''bad'', ascii ''765,0'']
   \<and> sum_row (Some example_label) = Inr (Fin (19995 / 10))
   \<and> find_parent (ascii ''tr'') ([], NavigableString []) = None
   \<and> sum_row (Some ([], NavigableString [])) = Inr (Fin 0)"
  using sum_row_skips_unparseable [of example_label]
    sum_row_skips_unparseable [of "([], NavigableString [])"]
    example_row_parent example_row_cells example_cells_sum [OF example_row_cells]
  by (simp add: find_parent_def [of _ "([], NavigableString [])"])

section \<open>The ratio and the result map\<close>

lemma izm_ratio_eq:
  "izm_ratio k t = Inr (if t = Fin 0 then Fin 0 else py_round2 (fmul (fdiv k t) (Fin 100)))"
  by (simp add: izm_ratio_def truthy_def py_truediv_def)

lemma report_any: "report any_stdout kvs = None"
  by (induction kvs) (auto simp: any_stdout_def)



text \<open>
  No value of the body can raise, so once the four pages are read the body computes the
  four values and prints their lines in order; it returns the dictionary unless a line
  cannot be printed.
\<close>

lemma scrape_pages_eq:
  "\<exists>ks ts ist bur ank.
     sum_row (find_kullanilabilir s3) = Inr ks \<and> sum_row (find_toplam s3) = Inr ts
     \<and> (\<forall>out. scrape_pages out (Inr s1) (Inr s2) (Inr s3) (Inr s4) =
           (case report out
                   [(istanbul, ist), (bursa, bur),
                    (izmir, if ts = Fin 0 then Fin 0 else py_round2 (fmul (fdiv ks ts) (Fin 100))),
                    (ankara, ank)] of
              Some e \<Rightarrow> Inl e
            | None \<Rightarrow>
                Inr [(istanbul, ist), (bursa, bur),
                     (izmir, if ts = Fin 0 then Fin 0 else py_round2 (fmul (fdiv ks ts) (Fin 100))),
                     (ankara, ank)]))"
proof -
  obtain ks where ks: "sum_row (find_kullanilabilir s3) = Inr ks"
    using sum_row_total by blast
  obtain ts where ts: "sum_row (find_toplam s3) = Inr ts"
    using sum_row_total by blast
  show ?thesis
    apply (rule exI [of _ ks], rule exI [of _ ts])
    apply (rule exI [of _ "case py_float (clean_str (text_of (find_ist s1))) of
                             None \<Rightarrow> Fin 0 | Some v \<Rightarrow> v"])
    apply (rule exI [of _ "case py_float (clean_str (text_of (find_bur s2))) of
                             None \<Rightarrow> Fin 0 | Some v \<Rightarrow> v"])
    apply (rule exI [of _ "case py_float (clean_str (text_of (find_ank s4))) of
                             None \<Rightarrow> Fin 0 | Some v \<Rightarrow> v"])
    apply (simp add: scrape_pages_def ks ts parse_percentage_str izm_ratio_eq
        split: option.splits)
    done
qed

text \<open>
  C7. With a total of zero the ratio is \<open>0.0\<close>; with any other total it is
  \<open>round(available / total * 100, 2)\<close>; a \<open>ZeroDivisionError\<close> never leaves the expression.
  Once the four pages are read, the Izmir entry of every result map is this ratio of the
  two row sums, and the map is returned whenever standard output takes every line.
\<close>

theorem ratio_guards_zero_total:
  "izm_ratio k (Fin 0) = Inr (Fin 0)
   \<and> (t \<noteq> Fin 0 \<longrightarrow> izm_ratio k t = Inr (py_round2 (fmul (fdiv k t) (Fin 100))))
   \<and> izm_ratio k t \<noteq> Inl ZeroDivisionError
   \<and> (\<exists>ks ts ist bur izm ank.
         sum_row (find_kullanilabilir s3) = Inr ks \<and> sum_row (find_toplam s3) = Inr ts
         \<and> izm_ratio ks ts = Inr izm
         \<and> scrape_pages any_stdout (Inr s1) (Inr s2) (Inr s3) (Inr s4) =
             Inr [(istanbul, ist), (bursa, bur), (izmir, izm), (ankara, ank)]
         \<and> (\<forall>out m. scrape_pages out (Inr s1) (Inr s2) (Inr s3) (Inr s4) = Inr m \<longrightarrow>
               m = [(istanbul, ist), (bursa, bur), (izmir, izm), (ankara, ank)]))"
proof (intro conjI impI)
  show "izm_ratio k (Fin 0) = Inr (Fin 0)" by (simp add: izm_ratio_eq)
next
  assume "t \<noteq> Fin 0"
  then show "izm_ratio k t = Inr (py_round2 (fmul (fdiv k t) (Fin 100)))"
    by (simp add: izm_ratio_eq)
next
  show "izm_ratio k t \<noteq> Inl ZeroDivisionError" by (simp add: izm_ratio_eq)
next
  from scrape_pages_eq [of s3 s1 s2 s4] obtain ks ts ist bur ank where r:
    "sum_row (find_kullanilabilir s3) = Inr ks" "sum_row (find_toplam s3) = Inr ts"
    "\<forall>out. scrape_pages out (Inr s1) (Inr s2) (Inr s3) (Inr s4) =
       (case report out
               [(istanbul, ist), (bursa, bur),
                (izmir, if ts = Fin 0 then Fin 0 else py_round2 (fmul (fdiv ks ts) (Fin 100))),
                (ankara, ank)] of
          Some e \<Rightarrow> Inl e
        | None \<Rightarrow>
            Inr [(istanbul, ist), (bursa, bur),
                 (izmir, if ts = Fin 0 then Fin 0 else py_round2 (fmul (fdiv ks ts) (Fin 100))),
                 (ankara, ank)])"
    by blast
  let ?izm = "if ts = Fin 0 then Fin 0 else py_round2 (fmul (fdiv ks ts) (Fin 100))"
  have a: "izm_ratio ks ts = Inr ?izm" by (simp add: izm_ratio_eq)
  have b: "scrape_pages any_stdout (Inr s1) (Inr s2) (Inr s3) (Inr s4) =
      Inr [(istanbul, ist), (bursa, bur), (izmir, ?izm), (ankara, ank)]"
    using r(3) by (simp add: report_any del: report.simps)
  have c: "\<forall>out m. scrape_pages out (Inr s1) (Inr s2) (Inr s3) (Inr s4) = Inr m \<longrightarrow>
      m = [(istanbul, ist), (bursa, bur), (izmir, ?izm), (ankara, ank)]"
    using r(3) by (auto split: option.splits simp del: report.simps)
  show "\<exists>ks ts ist bur izm ank.
         sum_row (find_kullanilabilir s3) = Inr ks \<and> sum_row (find_toplam s3) = Inr ts
         \<and> izm_ratio ks ts = Inr izm
         \<and> scrape_pages any_stdout (Inr s1) (Inr s2) (Inr s3) (Inr s4) =
             Inr [(istanbul, ist), (bursa, bur), (izmir, izm), (ankara, ank)]
         \<and> (\<forall>out m. scrape_pages out (Inr s1) (Inr s2) (Inr s3) (Inr s4) = Inr m \<longrightarrow>
               m = [(istanbul, ist), (bursa, bur), (izmir, izm), (ankara, ank)])"
    apply (rule exI [of _ ks], rule exI [of _ ts], rule exI [of _ ist], rule exI [of _ bur])
    apply (rule exI [of _ ?izm], rule exI [of _ ank])
    using r(1,2) a b c by blast
qed

lemma third_as_percentage:
  "py_round2 (fmul (fdiv (Fin 1) (Fin 3)) (Fin 100)) = Fin (2345390243441541 / 2 ^ 46)"
  by (simp add: float_eval py_round2_def)

theorem ratio_guards_zero_total_witness:
  "Fin 3 \<noteq> Fin 0 \<and> izm_ratio (Fin 1) (Fin 3) = Inr (Fin (2345390243441541 / 2 ^ 46))
   \<and> izm_ratio (Fin 1) (Fin 0) = Inr (Fin 0)"
  using ratio_guards_zero_total [of "Fin 1" "Fin 3"] third_as_percentage
  by simp














text \<open>
  The \<open>finally\<close> clause: once the four browsers are launched, an exception of the first
  \<open>quit()\<close> leaves the run, whatever the \<open>try\<close> computed.
\<close>

lemma scrape_levels_quit:
  assumes "new_headless_driver (drv_ist b) = None" "new_headless_driver (drv_bur b) = None"
    "new_headless_driver (drv_ank b) = None" "new_headless_driver (drv_izm b) = None"
    "quit (drv_ist b) = Some e"
  shows "scrape_levels out b = Inl e"
  using assms by (simp add: scrape_levels_def)











section \<open>Properties of the two patterns\<close>

lemma decimal_lt_10: "decimal c = Some d \<Longrightarrow> d < 10"
  by (auto simp: decimal_def find_Some_iff)

lemma not_digit_marks:
  "\<not> is_digit 45" "\<not> is_digit 43" "\<not> is_digit 95" "\<not> is_digit 176" "\<not> is_digit 37"
  by (simp_all add: is_digit_low)

lemma space_not_digit:
  "\<not> is_digit 9" "\<not> is_digit 10" "\<not> is_digit 11" "\<not> is_digit 12" "\<not> is_digit 13"
  "\<not> is_digit 32" "\<not> is_digit 133" "\<not> is_digit 160" "\<not> is_digit 5760" "\<not> is_digit 8192"
  "\<not> is_digit 8193" "\<not> is_digit 8194" "\<not> is_digit 8195" "\<not> is_digit 8196"
  "\<not> is_digit 8197" "\<not> is_digit 8198" "\<not> is_digit 8199" "\<not> is_digit 8200"
  "\<not> is_digit 8201" "\<not> is_digit 8202" "\<not> is_digit 8232" "\<not> is_digit 8233"
  "\<not> is_digit 8239" "\<not> is_digit 8287" "\<not> is_digit 12288"
  by (simp_all add: is_digit_def decimal_def digit_zeros_def)

lemma float_space_not_digit: "is_float_space c \<Longrightarrow> \<not> is_digit c"
  unfolding is_float_space_def is_space_def
  by (elim disjE conjE) (auto simp: space_not_digit)

lemma minus_not_space: "\<not> is_float_space 45"
  by (simp add: is_float_space_def is_space_def)

lemma py_int_1:
  assumes "decimal a = Some d"
  shows "py_int [a] = Some (int d)"
proof -
  have a: "is_digit a" using assms by (simp add: is_digit_def)
  then have "\<not> is_float_space a" "a \<noteq> 45" "a \<noteq> 43"
    using float_space_not_digit not_digit_marks by blast+
  then show ?thesis
    by (simp add: py_int_def strip_by_def split_sign_def digits_value_def assms)
qed

lemma py_int_2:
  assumes "decimal a = Some d" "decimal b = Some e"
  shows "py_int [a, b] = Some (int (10 * d + e))"
proof -
  have "is_digit a" "is_digit b" using assms by (simp_all add: is_digit_def)
  then have "\<not> is_float_space a" "\<not> is_float_space b" "a \<noteq> 45" "a \<noteq> 43" "b \<noteq> 95"
    using float_space_not_digit not_digit_marks by blast+
  then show ?thesis
    by (simp add: py_int_def strip_by_def split_sign_def digits_value_def assms)
qed

lemma py_int_minus_1:
  assumes "decimal a = Some d"
  shows "py_int [45, a] = Some (- int d)"
proof -
  have a: "is_digit a" using assms by (simp add: is_digit_def)
  then have "\<not> is_float_space a"
    using float_space_not_digit by blast
  then show ?thesis
    by (simp add: py_int_def strip_by_def split_sign_def digits_value_def assms minus_not_space)
qed

lemma py_int_minus_2:
  assumes "decimal a = Some d" "decimal b = Some e"
  shows "py_int [45, a, b] = Some (- int (10 * d + e))"
proof -
  have "is_digit a" "is_digit b" using assms by (simp_all add: is_digit_def)
  then have "\<not> is_float_space a" "\<not> is_float_space b" "b \<noteq> 95"
    using float_space_not_digit not_digit_marks by blast+
  then show ?thesis
    by (simp add: py_int_def strip_by_def split_sign_def digits_value_def assms minus_not_space)
qed

lemma digit_value: "is_digit a \<Longrightarrow> \<exists>d<10. decimal a = Some d"
  using decimal_lt_10 [of a] by (auto simp: is_digit_def)

lemma digit_group_cases:
  assumes "digit_group g"
  obtains a where "g = [a]" "is_digit a" | a b where "g = [a, b]" "is_digit a" "is_digit b"
  using assms by (auto simp: digit_group_def split: list.splits)

lemma py_int_digit_group:
  assumes "digit_group g"
  shows "\<exists>v. py_int g = Some v \<and> 0 \<le> v \<and> v \<le> 99"
  using assms
proof (cases rule: digit_group_cases)
  case (1 a)
  then obtain d where "d < 10" "decimal a = Some d" using digit_value by blast
  then show ?thesis using 1 py_int_1 [of a d] by simp
next
  case (2 a b)
  then obtain d e where "d < 10" "decimal a = Some d" "e < 10" "decimal b = Some e"
    using digit_value by blast
  then show ?thesis using 2 py_int_2 [of a d b e] by simp
qed

lemma py_int_minus_group:
  assumes "digit_group g"
  shows "\<exists>v. py_int (45 # g) = Some v \<and> - 99 \<le> v \<and> v \<le> 0"
  using assms
proof (cases rule: digit_group_cases)
  case (1 a)
  then obtain d where "d < 10" "decimal a = Some d" using digit_value by blast
  then show ?thesis using 1 py_int_minus_1 [of a d] by simp
next
  case (2 a b)
  then obtain d e where "d < 10" "decimal a = Some d" "e < 10" "decimal b = Some e"
    using digit_value by blast
  then show ?thesis using 2 py_int_minus_2 [of a d b e] by simp
qed

lemma py_int_signed_group:
  assumes "signed_group g"
  shows "\<exists>v. py_int g = Some v \<and> - 99 \<le> v \<and> v \<le> 99"
proof (cases "digit_group g")
  case True
  then show ?thesis using py_int_digit_group by fastforce
next
  case False
  with assms obtain g' where "g = 45 # g'" "digit_group g'"
    by (auto simp: signed_group_def split: list.splits)
  then show ?thesis using py_int_minus_group [of g'] by fastforce
qed

lemma match_num_Some:
  assumes "match_num t s = Some (g, rest)"
  shows "digit_group g \<and> s = g @ t # rest"
  using assms by (auto simp: match_num_def digit_group_def split: list.splits if_splits)

lemma match_num_None:
  assumes "match_num t (a # b # cs) = None"
  shows "\<not> (is_digit a \<and> b = t)"
  using assms by (auto simp: match_num_def split: list.splits if_splits)

lemma match_deg_Some:
  assumes "match_deg s = Some (g, rest)"
  shows "signed_group g \<and> s = g @ 176 # rest"
proof (cases s)
  case Nil
  with assms show ?thesis by (simp add: match_deg_def)
next
  case (Cons c cs)
  show ?thesis
  proof (cases "c = 45 \<and> match_num 176 cs \<noteq> None")
    case True
    then obtain g' where "match_num 176 cs = Some (g', rest)" "g = 45 # g'"
      using assms Cons by (auto simp: match_deg_def)
    then show ?thesis
      using match_num_Some [of 176 cs g' rest] Cons True by (simp add: signed_group_def)
  next
    case False
    then have "match_num 176 s = Some (g, rest)"
      using assms Cons by (auto simp: match_deg_def split: if_splits option.splits)
    then show ?thesis
      using match_num_Some [of 176 s g rest] by (simp add: signed_group_def)
  qed
qed

lemma match_deg_None:
  assumes "match_deg (a # b # cs) = None"
  shows "\<not> (is_digit a \<and> b = 176)"
proof -
  have "match_num 176 (a # b # cs) = None"
    using assms by (auto simp: match_deg_def split: if_splits option.splits)
  then show ?thesis by (rule match_num_None)
qed

lemma sublist_in_suffix: "sublist xs ys \<Longrightarrow> sublist xs (ps @ ys)"
  by (metis append.assoc sublist_def)

lemma sublist_in_tail: "sublist xs ys \<Longrightarrow> sublist xs (y # ys)"
  using sublist_in_suffix [of xs ys "[y]"] by simp

lemma sublist_group_head: "sublist (g @ [t]) (g @ t # rest)"
  using sublist_append_rightI [of "g @ [t]" rest] by simp

lemma findall_deg_groups:
  "g \<in> set (findall_deg s) \<Longrightarrow> signed_group g \<and> sublist (g @ [176]) s"
proof (induction s rule: findall_deg.induct)
  case 1
  then show ?case by simp
next
  case (2 c cs)
  show ?case
  proof (cases "match_deg (c # cs)")
    case None
    with 2 show ?thesis by (auto intro: sublist_in_tail)
  next
    case (Some m)
    obtain g0 rest where m: "m = (g0, rest)" by (cases m)
    with Some have shape: "signed_group g0" "c # cs = g0 @ 176 # rest"
      using match_deg_Some [of "c # cs" g0 rest] by simp_all
    from "2.prems" Some m consider "g = g0" | "g \<in> set (findall_deg rest)" by auto
    then show ?thesis
    proof cases
      case 1
      then show ?thesis using shape sublist_group_head [of g0 176 rest] by simp
    next
      case 2
      then have "signed_group g" "sublist (g @ [176]) rest"
        using "2.IH"(2) [OF Some m [symmetric]] by simp_all
      then show ?thesis
        using shape(2) sublist_in_suffix [of "g @ [176]" rest "g0 @ [176]"] by simp
    qed
  qed
qed

lemma digit_before_Cons: "digit_before t s \<Longrightarrow> digit_before t (x # s)"
  by (cases s) simp_all

lemma digit_before_append: "digit_before t s \<Longrightarrow> digit_before t (pre @ s)"
  by (induction pre) (simp_all add: digit_before_Cons)

lemma digit_before_group:
  assumes "digit_group g"
  shows "digit_before t (g @ t # rest)"
  using assms by (cases rule: digit_group_cases) simp_all

lemma digit_before_signed:
  assumes "signed_group g"
  shows "digit_before t (g @ t # rest)"
proof (cases "digit_group g")
  case True
  then show ?thesis by (rule digit_before_group)
next
  case False
  with assms obtain g' where "g = 45 # g'" "digit_group g'"
    by (auto simp: signed_group_def split: list.splits)
  then show ?thesis
    using digit_before_group [of g' t rest] digit_before_Cons [of t "g' @ t # rest" 45] by simp
qed

lemma digit_before_step:
  assumes "\<not> (\<exists>b cs'. cs = b # cs' \<and> is_digit c \<and> b = t)"
  shows "digit_before t (c # cs) = digit_before t cs"
  using assms by (cases cs) auto

lemma findall_deg_empty: "findall_deg s = [] \<longleftrightarrow> \<not> digit_before 176 s"
proof (induction s rule: findall_deg.induct)
  case 1
  show ?case by simp
next
  case (2 c cs)
  show ?case
  proof (cases "match_deg (c # cs)")
    case None
    then have "\<not> (\<exists>b cs'. cs = b # cs' \<and> is_digit c \<and> b = 176)"
      using match_deg_None by blast
    then have "digit_before 176 (c # cs) = digit_before 176 cs"
      by (rule digit_before_step)
    with None "2.IH"(1) show ?thesis by simp
  next
    case (Some m)
    obtain g0 rest where m: "m = (g0, rest)" by (cases m)
    with Some have "signed_group g0" "c # cs = g0 @ 176 # rest"
      using match_deg_Some [of "c # cs" g0 rest] by simp_all
    then have "digit_before 176 (c # cs)"
      using digit_before_signed [of g0 176 rest] by simp
    with Some m show ?thesis by simp
  qed
qed

lemma search_pct_None: "search_pct s = None \<longleftrightarrow> \<not> digit_before 37 s"
proof (induction s)
  case Nil
  show ?case by simp
next
  case (Cons c cs)
  show ?case
  proof (cases "match_num 37 (c # cs)")
    case None
    then have "\<not> (\<exists>b cs'. cs = b # cs' \<and> is_digit c \<and> b = 37)"
      using match_num_None by blast
    then have "digit_before 37 (c # cs) = digit_before 37 cs"
      by (rule digit_before_step)
    with None Cons.IH show ?thesis by simp
  next
    case (Some m)
    obtain g0 rest where m: "m = (g0, rest)" by (cases m)
    with Some have "digit_group g0" "c # cs = g0 @ 37 # rest"
      using match_num_Some [of 37 "c # cs" g0 rest] by simp_all
    then have "digit_before 37 (c # cs)"
      using digit_before_group [of g0 37 rest] by simp
    with Some m show ?thesis by simp
  qed
qed

lemma search_pct_Some: "search_pct s = Some g \<Longrightarrow> digit_group g \<and> sublist (g @ [37]) s"
proof (induction s)
  case Nil
  then show ?case by simp
next
  case (Cons c cs)
  show ?case
  proof (cases "match_num 37 (c # cs)")
    case None
    with Cons show ?thesis by (auto intro: sublist_in_tail)
  next
    case (Some m)
    obtain g0 rest where m: "m = (g0, rest)" by (cases m)
    with Some have shape: "digit_group g0" "c # cs = g0 @ 37 # rest"
      using match_num_Some [of 37 "c # cs" g0 rest] by simp_all
    from Cons.prems Some m have "g = g0" by simp
    then show ?thesis using shape sublist_group_head [of g0 37 rest] by simp
  qed
qed

lemma digit_before_iff: "digit_before t s \<longleftrightarrow> (\<exists>a. is_digit a \<and> sublist [a, t] s)"
proof (induction t s rule: digit_before.induct)
  case (1 t a b cs)
  have "sublist [x, t] (a # b # cs) \<longleftrightarrow> (x = a \<and> t = b) \<or> sublist [x, t] (b # cs)" for x
    by (auto simp: sublist_Cons_right [of _ a])
  with 1 show ?case by auto
next
  case (2 t a)
  show ?case by (simp add: sublist_Cons_right)
next
  case (3 t)
  show ?case by simp
qed

section \<open>Properties of the forecast extractor\<close>

lemma int_of_group_signed:
  assumes "\<forall>g. og = Some g \<longrightarrow> signed_group g"
  obtains r where "int_of_group og = Inr r" "r = None \<longleftrightarrow> og = None"
    "\<forall>v. r = Some v \<longrightarrow> (\<exists>g. og = Some g \<and> py_int g = Some v \<and> - 99 \<le> v \<and> v \<le> 99)"
proof (cases og)
  case None
  then show ?thesis using that [of None] by (simp add: int_of_group_def)
next
  case (Some g)
  then obtain v where "py_int g = Some v" "- 99 \<le> v" "v \<le> 99"
    using assms py_int_signed_group by blast
  with Some show ?thesis using that [of "Some v"] by (simp add: int_of_group_def)
qed

lemma int_of_group_digits:
  assumes "\<forall>g. og = Some g \<longrightarrow> digit_group g"
  obtains r where "int_of_group og = Inr r" "r = None \<longleftrightarrow> og = None"
    "\<forall>v. r = Some v \<longrightarrow> (\<exists>g. og = Some g \<and> py_int g = Some v \<and> 0 \<le> v \<and> v \<le> 99)"
proof (cases og)
  case None
  then show ?thesis using that [of None] by (simp add: int_of_group_def)
next
  case (Some g)
  then obtain v where "py_int g = Some v" "0 \<le> v" "v \<le> 99"
    using assms py_int_digit_group by blast
  with Some show ?thesis using that [of "Some v"] by (simp add: int_of_group_def)
qed

lemma nth_opt_group:
  assumes "nth_opt (findall_deg txt) k = Some g"
  shows "signed_group g" "sublist (g @ [176]) txt"
proof -
  from assms have "g \<in> set (findall_deg txt)"
    by (auto simp: nth_opt_def split: if_splits)
  then show "signed_group g" "sublist (g @ [176]) txt"
    using findall_deg_groups by blast+
qed

lemma parse_text_result:
  "\<exists>h l p.
     parse_text i txt =
       Inr \<lparr>day_index = i + 1, card_text = take 200 txt, high_c = h, low_c = l, precip_pct = p\<rparr>
     \<and> (h = None \<longleftrightarrow> findall_deg txt = [])
     \<and> (l = None \<longleftrightarrow> length (findall_deg txt) < 2)
     \<and> (p = None \<longleftrightarrow> search_pct txt = None)
     \<and> (\<forall>v. h = Some v \<longrightarrow> (\<exists>g. sublist (g @ [176]) txt \<and> py_int g = Some v))
     \<and> (\<forall>v. l = Some v \<longrightarrow> (\<exists>g. sublist (g @ [176]) txt \<and> py_int g = Some v))
     \<and> (\<forall>v. p = Some v \<longrightarrow> 0 \<le> v \<and> v \<le> 99 \<and> (\<exists>g. sublist (g @ [37]) txt \<and> py_int g = Some v))"
proof -
  let ?hs = "findall_deg txt"
  have groups: "\<forall>g. nth_opt ?hs k = Some g \<longrightarrow> signed_group g" for k
    using nth_opt_group(1) by blast
  have digits: "\<forall>g. search_pct txt = Some g \<longrightarrow> digit_group g"
    using search_pct_Some by blast
  obtain h where h: "int_of_group (nth_opt ?hs 0) = Inr h" "h = None \<longleftrightarrow> nth_opt ?hs 0 = None"
    "\<forall>v. h = Some v \<longrightarrow> (\<exists>g. nth_opt ?hs 0 = Some g \<and> py_int g = Some v \<and> - 99 \<le> v \<and> v \<le> 99)"
    using groups [of 0] by (rule int_of_group_signed)
  obtain l where l: "int_of_group (nth_opt ?hs 1) = Inr l" "l = None \<longleftrightarrow> nth_opt ?hs 1 = None"
    "\<forall>v. l = Some v \<longrightarrow> (\<exists>g. nth_opt ?hs 1 = Some g \<and> py_int g = Some v \<and> - 99 \<le> v \<and> v \<le> 99)"
    using groups [of 1] by (rule int_of_group_signed)
  obtain p where p: "int_of_group (search_pct txt) = Inr p" "p = None \<longleftrightarrow> search_pct txt = None"
    "\<forall>v. p = Some v \<longrightarrow> (\<exists>g. search_pct txt = Some g \<and> py_int g = Some v \<and> 0 \<le> v \<and> v \<le> 99)"
    using digits by (rule int_of_group_digits)
  have A: "parse_text i txt =
      Inr \<lparr>day_index = i + 1, card_text = take 200 txt, high_c = h, low_c = l, precip_pct = p\<rparr>"
    unfolding parse_text_def Let_def h(1) l(1) p(1) by simp
  have B: "h = None \<longleftrightarrow> ?hs = []"
    using h(2) by (auto simp: nth_opt_def)
  have C: "l = None \<longleftrightarrow> length ?hs < 2"
    using l(2) by (auto simp: nth_opt_def)
  have D: "\<forall>v. h = Some v \<longrightarrow> (\<exists>g. sublist (g @ [176]) txt \<and> py_int g = Some v)"
  proof (intro allI impI)
    fix v assume "h = Some v"
    with h(3) obtain g where "nth_opt ?hs 0 = Some g" "py_int g = Some v" by blast
    then show "\<exists>g. sublist (g @ [176]) txt \<and> py_int g = Some v"
      using nth_opt_group(2) by blast
  qed
  have E: "\<forall>v. l = Some v \<longrightarrow> (\<exists>g. sublist (g @ [176]) txt \<and> py_int g = Some v)"
  proof (intro allI impI)
    fix v assume "l = Some v"
    with l(3) obtain g where "nth_opt ?hs 1 = Some g" "py_int g = Some v" by blast
    then show "\<exists>g. sublist (g @ [176]) txt \<and> py_int g = Some v"
      using nth_opt_group(2) by blast
  qed
  have F: "\<forall>v. p = Some v \<longrightarrow>
      0 \<le> v \<and> v \<le> 99 \<and> (\<exists>g. sublist (g @ [37]) txt \<and> py_int g = Some v)"
  proof (intro allI impI)
    fix v assume "p = Some v"
    with p(3) obtain g where "search_pct txt = Some g" "py_int g = Some v" "0 \<le> v" "v \<le> 99"
      by blast
    then show "0 \<le> v \<and> v \<le> 99 \<and> (\<exists>g. sublist (g @ [37]) txt \<and> py_int g = Some v)"
      using search_pct_Some by blast
  qed
  show ?thesis
    apply (rule exI [of _ h], rule exI [of _ l], rule exI [of _ p])
    using A B C D E F p(2) by simp
qed

lemma parse_card_total: "\<exists>d. parse_card i c = Inr d"
  using parse_text_result [of i "visible_text c"] by (auto simp: parse_card_def)

lemma parse_cards_pointwise:
  "\<exists>out. parse_cards i cs = Inr out \<and> length out = length cs
         \<and> (\<forall>j<length cs. parse_card (i + j) (cs ! j) = Inr (out ! j))"
proof (induction cs arbitrary: i)
  case Nil
  show ?case by simp
next
  case (Cons c cs)
  obtain d where d: "parse_card i c = Inr d"
    using parse_card_total by blast
  obtain ds where ds: "parse_cards (i + 1) cs = Inr ds" "length ds = length cs"
    "\<forall>j<length cs. parse_card (i + 1 + j) (cs ! j) = Inr (ds ! j)"
    using Cons.IH [of "i + 1"] by blast
  have "parse_card (i + j) ((c # cs) ! j) = Inr ((d # ds) ! j)" if "j < length (c # cs)" for j
  proof (cases j)
    case 0
    then show ?thesis using d by simp
  next
    case (Suc k)
    then show ?thesis using ds(3) that by simp
  qed
  then show ?case using d ds by simp
qed

lemma parse_accu_15day_result:
  "\<exists>out. parse_accu_15day bs = Inr out \<and> length out = min 15 (length (chosen_cards bs))
         \<and> (\<forall>j<length out. parse_card j (chosen_cards bs ! j) = Inr (out ! j))"
proof -
  let ?cs = "take 15 (chosen_cards bs)"
  obtain out where out: "parse_cards 0 ?cs = Inr out" "length out = length ?cs"
    "\<forall>j<length ?cs. parse_card (0 + j) (?cs ! j) = Inr (out ! j)"
    using parse_cards_pointwise [of 0 ?cs] by blast
  have "parse_card j (chosen_cards bs ! j) = Inr (out ! j)" if "j < length out" for j
    using out(2,3) that by simp
  then show ?thesis
    using out(1,2) by (simp add: parse_accu_15day_def min.commute)
qed

section \<open>Properties of the selector loop\<close>

lemma select_cards_first:
  assumes "i < length sels" "7 \<le> length (bs (sels ! i))" "\<forall>j<i. length (bs (sels ! j)) < 7"
  shows "select_cards bs sels cards = bs (sels ! i)"
  using assms
proof (induction sels arbitrary: i cards)
  case Nil
  then show ?case by simp
next
  case (Cons s sels)
  show ?case
  proof (cases i)
    case 0
    with Cons.prems show ?thesis by simp
  next
    case (Suc k)
    with Cons.prems have "length (bs s) < 7" by auto
    moreover have "select_cards bs sels (bs s) = bs (sels ! k)"
      using Cons.prems Suc by (intro Cons.IH) auto
    ultimately show ?thesis using Suc by simp
  qed
qed

lemma select_cards_last:
  assumes "sels \<noteq> []" "\<forall>s\<in>set sels. length (bs s) < 7"
  shows "select_cards bs sels cards = bs (last sels)"
  using assms
proof (induction sels arbitrary: cards)
  case Nil
  then show ?case by simp
next
  case (Cons s sels)
  then show ?case by (cases sels) (simp_all add: Let_def)
qed

lemmas text_eval =
  match_num_def match_deg_def is_digit_low decimal_low py_int_def split_sign_def strip_by_def
  is_float_space_def is_space_def digits_value_def int_of_group_def nth_opt_def parse_text_def
  Let_def

lemma thursday_fields:
  "parse_text i thursday =
     Inr \<lparr>day_index = i + 1, card_text = thursday, high_c = Some 24, low_c = Some 15,
          precip_pct = None\<rparr>"
  by (simp add: thursday_def text_eval)

lemma thursday_suffixed_fields:
  "parse_text i thursday_suffixed =
     Inr \<lparr>day_index = i + 1, card_text = thursday_suffixed, high_c = Some 24, low_c = Some 15,
          precip_pct = Some 20\<rparr>"
  by (simp add: thursday_suffixed_def text_eval)

lemmas card_eval =
  visible_text_def get_text_def str_strip_def strip_by_def is_space_def ascii_simps

lemma thursday_card_text: "visible_text thursday_card = thursday"
  by (simp add: thursday_card_def thursday_def card_eval)

lemma friday_card_text: "visible_text friday_card = ascii ''Cuma 9'' @ [32, 176, 32] @ ascii ''100%''"
  by (simp add: friday_card_def card_eval)

lemma friday_fields:
  "parse_card i friday_card =
     Inr \<lparr>day_index = i + 1, card_text = ascii ''Cuma 9'' @ [32, 176, 32] @ ascii ''100%'',
          high_c = None, low_c = None, precip_pct = Some 0\<rparr>"
  by (simp add: parse_card_def friday_card_text) (simp add: text_eval ascii_simps)

section \<open>The claims about the forecast extractor\<close>

lemma selectors_length: "length selectors = 9"
  by (simp add: selectors_def)

text \<open>
  C2. The cards used are the matches of the first selector, in the listed order, with at
  least seven matches; when no selector reaches seven they are the matches of the last
  selector, whatever they are. With 3, 5 and 12 matches for the first three selectors
  the twelve matches of the third are used.
\<close>

theorem selector_fallback:
  "(\<forall>i. i < length selectors \<and> 7 \<le> length (bs (selectors ! i))
         \<and> (\<forall>j<i. length (bs (selectors ! j)) < 7)
       \<longrightarrow> chosen_cards bs = bs (selectors ! i))
   \<and> ((\<forall>s\<in>set selectors. length (bs s) < 7) \<longrightarrow> chosen_cards bs = bs (last selectors))
   \<and> (length (bs (selectors ! 0)) = 3 \<and> length (bs (selectors ! 1)) = 5
        \<and> length (bs (selectors ! 2)) = 12
       \<longrightarrow> chosen_cards bs = bs (selectors ! 2))
   \<and> parse_accu_15day bs = parse_cards 0 (take 15 (chosen_cards bs))"
proof (intro conjI allI impI)
  fix i
  assume "i < length selectors \<and> 7 \<le> length (bs (selectors ! i))
    \<and> (\<forall>j<i. length (bs (selectors ! j)) < 7)"
  then show "chosen_cards bs = bs (selectors ! i)"
    unfolding chosen_cards_def by (intro select_cards_first) simp_all
next
  assume "\<forall>s\<in>set selectors. length (bs s) < 7"
  moreover have "selectors \<noteq> []" by (simp add: selectors_def)
  ultimately show "chosen_cards bs = bs (last selectors)"
    unfolding chosen_cards_def by (intro select_cards_last)
next
  assume h: "length (bs (selectors ! 0)) = 3 \<and> length (bs (selectors ! 1)) = 5
    \<and> length (bs (selectors ! 2)) = 12"
  have "\<forall>j<2. length (bs (selectors ! j)) < 7"
  proof (intro allI impI)
    fix j :: nat assume "j < 2"
    then have "j = 0 \<or> j = 1" by auto
    with h show "length (bs (selectors ! j)) < 7" by auto
  qed
  moreover have "2 < length selectors" by (simp add: selectors_length)
  moreover have "7 \<le> length (bs (selectors ! 2))" using h by simp
  ultimately show "chosen_cards bs = bs (selectors ! 2)"
    unfolding chosen_cards_def by (intro select_cards_first)
next
  show "parse_accu_15day bs = parse_cards 0 (take 15 (chosen_cards bs))"
    by (simp add: parse_accu_15day_def)
qed

lemma fallback_bs_lengths:
  "length (fallback_bs (selectors ! 0)) = 3" "length (fallback_bs (selectors ! 1)) = 5"
  "length (fallback_bs (selectors ! 2)) = 12"
  "fallback_bs (selectors ! 2) = replicate 12 thursday_card"
  by (simp_all add: selectors_def fallback_bs_def ascii_simps)

theorem selector_fallback_witness:
  "length (fallback_bs (selectors ! 0)) = 3 \<and> length (fallback_bs (selectors ! 1)) = 5
   \<and> length (fallback_bs (selectors ! 2)) = 12
   \<and> chosen_cards fallback_bs = replicate 12 thursday_card"
  using selector_fallback [of fallback_bs] fallback_bs_lengths
  by simp

text \<open>
  C3, as stated, fails: on the card text of the specification no number is followed by a
  percent sign, so the precipitation field is \<open>None\<close>, not 20.
\<close>

theorem thursday_precip_counterexample:
  "visible_text thursday_card = thursday
   \<and> map_sum id precip_pct (parse_card 0 thursday_card) = Inr None
   \<and> map_sum id precip_pct (parse_card 0 thursday_card) \<noteq> Inr (Some 20)"
  by (simp add: parse_card_def thursday_card_text thursday_fields)

text \<open>
  C3, amended. A card whose visible text is the text of the specification gives the high
  temperature 24, the low temperature 15 and no precipitation; with the percent sign
  after the number (\<open>20%\<close>) the precipitation is 20.
\<close>

theorem thursday_card_fields:
  "(visible_text c = thursday \<longrightarrow>
      parse_card i c =
        Inr \<lparr>day_index = i + 1, card_text = thursday, high_c = Some 24, low_c = Some 15,
             precip_pct = None\<rparr>)
   \<and> (visible_text c = thursday_suffixed \<longrightarrow>
         parse_card i c =
           Inr \<lparr>day_index = i + 1, card_text = thursday_suffixed, high_c = Some 24,
                low_c = Some 15, precip_pct = Some 20\<rparr>)"
  by (simp add: parse_card_def thursday_fields thursday_suffixed_fields)

theorem thursday_card_fields_witness:
  "visible_text thursday_card = thursday
   \<and> parse_card 0 thursday_card =
       Inr \<lparr>day_index = 1, card_text = thursday, high_c = Some 24, low_c = Some 15,
            precip_pct = None\<rparr>
   \<and> visible_text thursday_suffixed_card = thursday_suffixed
   \<and> parse_card 0 thursday_suffixed_card =
       Inr \<lparr>day_index = 1, card_text = thursday_suffixed, high_c = Some 24, low_c = Some 15,
            precip_pct = Some 20\<rparr>"
proof -
  have "visible_text thursday_suffixed_card = thursday_suffixed"
    by (simp add: thursday_suffixed_card_def thursday_suffixed_def card_eval)
  then show ?thesis
    using thursday_card_fields [of thursday_card 0]
      thursday_card_fields [of thursday_suffixed_card 0] thursday_card_text
    by simp
qed

lemma parse_card_fields:
  assumes "parse_card i c = Inr d"
  shows "day_index d = i + 1" "card_text d = take 200 (visible_text c)"
    "high_c d = None \<longleftrightarrow> \<not> digit_before 176 (visible_text c)"
    "low_c d = None \<longleftrightarrow> length (findall_deg (visible_text c)) < 2"
    "precip_pct d = None \<longleftrightarrow> \<not> digit_before 37 (visible_text c)"
    "\<forall>v. high_c d = Some v \<longrightarrow> (\<exists>g. sublist (g @ [176]) (visible_text c) \<and> py_int g = Some v)"
    "\<forall>v. low_c d = Some v \<longrightarrow> (\<exists>g. sublist (g @ [176]) (visible_text c) \<and> py_int g = Some v)"
    "\<forall>v. precip_pct d = Some v \<longrightarrow>
       0 \<le> v \<and> v \<le> 99 \<and> (\<exists>g. sublist (g @ [37]) (visible_text c) \<and> py_int g = Some v)"
proof -
  let ?t = "visible_text c"
  obtain h l p where r:
    "parse_text i ?t =
       Inr \<lparr>day_index = i + 1, card_text = take 200 ?t, high_c = h, low_c = l, precip_pct = p\<rparr>"
    "h = None \<longleftrightarrow> findall_deg ?t = []" "l = None \<longleftrightarrow> length (findall_deg ?t) < 2"
    "p = None \<longleftrightarrow> search_pct ?t = None"
    "\<forall>v. h = Some v \<longrightarrow> (\<exists>g. sublist (g @ [176]) ?t \<and> py_int g = Some v)"
    "\<forall>v. l = Some v \<longrightarrow> (\<exists>g. sublist (g @ [176]) ?t \<and> py_int g = Some v)"
    "\<forall>v. p = Some v \<longrightarrow> 0 \<le> v \<and> v \<le> 99 \<and> (\<exists>g. sublist (g @ [37]) ?t \<and> py_int g = Some v)"
    using parse_text_result [of i ?t] by (elim exE conjE)
  from assms r(1) have d:
    "d = \<lparr>day_index = i + 1, card_text = take 200 ?t, high_c = h, low_c = l, precip_pct = p\<rparr>"
    by (simp add: parse_card_def)
  show "day_index d = i + 1" "card_text d = take 200 ?t"
    by (simp_all add: d)
  show "high_c d = None \<longleftrightarrow> \<not> digit_before 176 ?t"
    using r(2) by (simp add: d findall_deg_empty)
  show "low_c d = None \<longleftrightarrow> length (findall_deg ?t) < 2"
    using r(3) by (simp add: d)
  show "precip_pct d = None \<longleftrightarrow> \<not> digit_before 37 ?t"
    using r(4) by (simp add: d search_pct_None)
  show "\<forall>v. high_c d = Some v \<longrightarrow> (\<exists>g. sublist (g @ [176]) ?t \<and> py_int g = Some v)"
    using r(5) by (simp add: d)
  show "\<forall>v. low_c d = Some v \<longrightarrow> (\<exists>g. sublist (g @ [176]) ?t \<and> py_int g = Some v)"
    using r(6) by (simp add: d)
  show "\<forall>v. precip_pct d = Some v \<longrightarrow>
      0 \<le> v \<and> v \<le> 99 \<and> (\<exists>g. sublist (g @ [37]) ?t \<and> py_int g = Some v)"
    using r(7) by (simp add: d)
qed

text \<open>
  C8. The extractor always returns a list, of at most 15 records, one for each of the
  first 15 chosen cards. Record \<open>i\<close> (from 0) has day index \<open>i + 1\<close> and the first 200
  characters of the card's visible text. A temperature or precipitation field is \<open>None\<close>
  exactly when the text holds no token for it (no digit directly before a degree sign,
  fewer than two degree tokens, no digit directly before a percent sign), and every
  value that is not \<open>None\<close> is \<open>int\<close> of a token standing in the text. When no card
  matches, the list is empty.
\<close>

theorem forecast_days_shape:
  "\<exists>out. parse_accu_15day bs = Inr out
     \<and> length out \<le> 15 \<and> length out = min 15 (length (chosen_cards bs))
     \<and> (\<forall>i<length out.
           day_index (out ! i) = i + 1
           \<and> card_text (out ! i) = take 200 (visible_text (chosen_cards bs ! i))
           \<and> length (card_text (out ! i)) \<le> 200
           \<and> (high_c (out ! i) = None \<longleftrightarrow> \<not> digit_before 176 (visible_text (chosen_cards bs ! i)))
           \<and> (low_c (out ! i) = None
                \<longleftrightarrow> length (findall_deg (visible_text (chosen_cards bs ! i))) < 2)
           \<and> (precip_pct (out ! i) = None
                \<longleftrightarrow> \<not> digit_before 37 (visible_text (chosen_cards bs ! i)))
           \<and> (\<forall>v. high_c (out ! i) = Some v \<longrightarrow>
                 (\<exists>g. sublist (g @ [176]) (visible_text (chosen_cards bs ! i)) \<and> py_int g = Some v))
           \<and> (\<forall>v. low_c (out ! i) = Some v \<longrightarrow>
                 (\<exists>g. sublist (g @ [176]) (visible_text (chosen_cards bs ! i)) \<and> py_int g = Some v))
           \<and> (\<forall>v. precip_pct (out ! i) = Some v \<longrightarrow>
                 (\<exists>g. sublist (g @ [37]) (visible_text (chosen_cards bs ! i)) \<and> py_int g = Some v)))
     \<and> (chosen_cards bs = [] \<longrightarrow> out = [])
     \<and> ((\<forall>sel. bs sel = []) \<longrightarrow> out = [])"
proof -
  obtain out where out: "parse_accu_15day bs = Inr out"
    "length out = min 15 (length (chosen_cards bs))"
    "\<forall>j<length out. parse_card j (chosen_cards bs ! j) = Inr (out ! j)"
    using parse_accu_15day_result by blast
  have empty: "chosen_cards bs = []" if "\<forall>sel. bs sel = []"
  proof -
    have "\<forall>s\<in>set selectors. length (bs s) < 7" using that by simp
    moreover have "selectors \<noteq> []" by (simp add: selectors_def)
    ultimately have "chosen_cards bs = bs (last selectors)"
      unfolding chosen_cards_def by (intro select_cards_last)
    then show ?thesis using that by simp
  qed
  have "parse_accu_15day bs = Inr out" by (rule out(1))
  moreover have "length out \<le> 15" using out(2) by simp
  moreover have "\<forall>i<length out.
           day_index (out ! i) = i + 1
           \<and> card_text (out ! i) = take 200 (visible_text (chosen_cards bs ! i))
           \<and> length (card_text (out ! i)) \<le> 200
           \<and> (high_c (out ! i) = None \<longleftrightarrow> \<not> digit_before 176 (visible_text (chosen_cards bs ! i)))
           \<and> (low_c (out ! i) = None
                \<longleftrightarrow> length (findall_deg (visible_text (chosen_cards bs ! i))) < 2)
           \<and> (precip_pct (out ! i) = None
                \<longleftrightarrow> \<not> digit_before 37 (visible_text (chosen_cards bs ! i)))
           \<and> (\<forall>v. high_c (out ! i) = Some v \<longrightarrow>
                 (\<exists>g. sublist (g @ [176]) (visible_text (chosen_cards bs ! i)) \<and> py_int g = Some v))
           \<and> (\<forall>v. low_c (out ! i) = Some v \<longrightarrow>
                 (\<exists>g. sublist (g @ [176]) (visible_text (chosen_cards bs ! i)) \<and> py_int g = Some v))
           \<and> (\<forall>v. precip_pct (out ! i) = Some v \<longrightarrow>
                 (\<exists>g. sublist (g @ [37]) (visible_text (chosen_cards bs ! i)) \<and> py_int g = Some v))"
  proof (intro allI impI)
    fix i assume "i < length out"
    then have p: "parse_card i (chosen_cards bs ! i) = Inr (out ! i)"
      using out(3) by simp
    show "day_index (out ! i) = i + 1
           \<and> card_text (out ! i) = take 200 (visible_text (chosen_cards bs ! i))
           \<and> length (card_text (out ! i)) \<le> 200
           \<and> (high_c (out ! i) = None \<longleftrightarrow> \<not> digit_before 176 (visible_text (chosen_cards bs ! i)))
           \<and> (low_c (out ! i) = None
                \<longleftrightarrow> length (findall_deg (visible_text (chosen_cards bs ! i))) < 2)
           \<and> (precip_pct (out ! i) = None
                \<longleftrightarrow> \<not> digit_before 37 (visible_text (chosen_cards bs ! i)))
           \<and> (\<forall>v. high_c (out ! i) = Some v \<longrightarrow>
                 (\<exists>g. sublist (g @ [176]) (visible_text (chosen_cards bs ! i)) \<and> py_int g = Some v))
           \<and> (\<forall>v. low_c (out ! i) = Some v \<longrightarrow>
                 (\<exists>g. sublist (g @ [176]) (visible_text (chosen_cards bs ! i)) \<and> py_int g = Some v))
           \<and> (\<forall>v. precip_pct (out ! i) = Some v \<longrightarrow>
                 (\<exists>g. sublist (g @ [37]) (visible_text (chosen_cards bs ! i)) \<and> py_int g = Some v))"
      using parse_card_fields [OF p] by simp
  qed
  moreover have "chosen_cards bs = [] \<longrightarrow> out = []" using out(2) by auto
  moreover have "(\<forall>sel. bs sel = []) \<longrightarrow> out = []" using out(2) empty by auto
  ultimately show ?thesis using out(2) by blast
qed

lemma week_cards: "chosen_cards week_bs = [thursday_card, friday_card]"
  by (simp add: chosen_cards_def selectors_def week_bs_def ascii_simps)

lemma thursday_card_parse:
  "parse_card i thursday_card =
     Inr \<lparr>day_index = i + 1, card_text = thursday, high_c = Some 24, low_c = Some 15,
          precip_pct = None\<rparr>"
  by (simp add: parse_card_def thursday_card_text thursday_fields)

lemma week_result: "parse_accu_15day week_bs = Inr week_out"
  by (simp add: parse_accu_15day_def week_cards week_out_def friday_fields thursday_card_parse)

lemma no_cards_result: "parse_accu_15day (\<lambda>sel. []) = Inr []"
  by (simp add: parse_accu_15day_def chosen_cards_def selectors_def)

theorem forecast_days_shape_witness:
  "parse_accu_15day week_bs = Inr week_out \<and> length week_out = 2
   \<and> day_index (week_out ! 0) = 1 \<and> day_index (week_out ! 1) = 2
   \<and> \<not> digit_before 176 (visible_text (chosen_cards week_bs ! 1))
   \<and> high_c (week_out ! 1) = None \<and> low_c (week_out ! 1) = None
   \<and> parse_accu_15day (\<lambda>sel. []) = Inr []"
  using forecast_days_shape [of week_bs] forecast_days_shape [of "\<lambda>sel. []"] week_result
    no_cards_result
  by (auto simp: week_out_def)

text \<open>
  C9. In every record the extractor returns, a low temperature comes with a high
  temperature.
\<close>

theorem low_needs_high:
  "\<exists>out. parse_accu_15day bs = Inr out \<and> (\<forall>d\<in>set out. low_c d \<noteq> None \<longrightarrow> high_c d \<noteq> None)"
proof -
  obtain out where out: "parse_accu_15day bs = Inr out"
    "\<forall>j<length out. parse_card j (chosen_cards bs ! j) = Inr (out ! j)"
    using parse_accu_15day_result by blast
  have "high_c d \<noteq> None" if "d \<in> set out" "low_c d \<noteq> None" for d
  proof -
    from that(1) obtain j where j: "j < length out" "d = out ! j"
      by (auto simp: in_set_conv_nth)
    then have p: "parse_card j (chosen_cards bs ! j) = Inr d"
      using out(2) by simp
    from that(2) have "\<not> length (findall_deg (visible_text (chosen_cards bs ! j))) < 2"
      using parse_card_fields(4) [OF p] by simp
    then have "findall_deg (visible_text (chosen_cards bs ! j)) \<noteq> []" by auto
    then have "digit_before 176 (visible_text (chosen_cards bs ! j))"
      by (simp add: findall_deg_empty)
    then show ?thesis
      using parse_card_fields(3) [OF p] by simp
  qed
  with out(1) show ?thesis by blast
qed

theorem low_needs_high_witness:
  "parse_accu_15day week_bs = Inr week_out
   \<and> low_c (week_out ! 0) = Some 15 \<and> high_c (week_out ! 0) = Some 24
   \<and> low_c (week_out ! 1) = None"
  using low_needs_high [of week_bs] week_result
  by (simp add: week_out_def)

lemma search_pct_100:
  "\<not> digit_before 37 pre \<Longrightarrow> search_pct (pre @ 49 # 48 # 48 # 37 # post) = Some [48, 48]"
proof (induction pre)
  case Nil
  show ?case by (simp add: match_num_def is_digit_low)
next
  case (Cons x pre)
  have rest: "\<not> digit_before 37 pre"
    using Cons.prems digit_before_Cons by blast
  have "match_num 37 (x # pre @ 49 # 48 # 48 # 37 # post) = None"
  proof (cases pre)
    case Nil
    then show ?thesis by (simp add: match_num_def)
  next
    case (Cons y pre')
    with Cons.prems show ?thesis
      by (cases pre') (auto simp: match_num_def)
  qed
  with Cons.IH [OF rest] show ?case by simp
qed

text \<open>
  C10, as stated, fails: the card text \<open>5% 100%\<close> contains \<open>100%\<close> and no two digits before a
  percent sign ahead of it, and the precipitation is 5, not 0: a single digit before a
  percent sign is a match as well, and the first match is taken.
\<close>

theorem shower_precip_counterexample:
  "visible_text shower_card = ascii ''5% '' @ ascii ''100%'' @ []
   \<and> \<not> two_digits_before 37 (ascii ''5% '')
   \<and> map_sum id precip_pct (parse_card 0 shower_card) = Inr (Some 5)
   \<and> map_sum id precip_pct (parse_card 0 shower_card) \<noteq> Inr (Some 0)"
  by (simp add: shower_card_def card_eval parse_card_def text_eval)

text \<open>
  C10, amended. Every precipitation value the extractor returns lies between 0 and 99; a
  card text with \<open>100%\<close> and no digit directly before a percent sign ahead of it gives 0,
  never 100.
\<close>

theorem precip_two_digits:
  "\<exists>out. parse_accu_15day bs = Inr out
     \<and> (\<forall>d\<in>set out. \<forall>p. precip_pct d = Some p \<longrightarrow> 0 \<le> p \<and> p \<le> 99)
     \<and> (\<forall>i<length out. \<forall>pre post.
           \<not> digit_before 37 pre \<and> visible_text (chosen_cards bs ! i) = pre @ ascii ''100%'' @ post
           \<longrightarrow> precip_pct (out ! i) = Some 0)"
proof -
  obtain out where out: "parse_accu_15day bs = Inr out"
    "\<forall>j<length out. parse_card j (chosen_cards bs ! j) = Inr (out ! j)"
    using parse_accu_15day_result by blast
  have range: "0 \<le> p \<and> p \<le> 99" if "d \<in> set out" "precip_pct d = Some p" for d p
  proof -
    from that(1) obtain j where j: "j < length out" "d = out ! j"
      by (auto simp: in_set_conv_nth)
    then have p: "parse_card j (chosen_cards bs ! j) = Inr d"
      using out(2) by simp
    show ?thesis
      using parse_card_fields(8) [OF p] that(2) by simp
  qed
  have hundred: "precip_pct (out ! i) = Some 0"
    if "i < length out" "\<not> digit_before 37 pre"
      "visible_text (chosen_cards bs ! i) = pre @ ascii ''100%'' @ post" for i pre post
  proof -
    have "search_pct (visible_text (chosen_cards bs ! i)) = Some [48, 48]"
      using search_pct_100 [OF that(2)] that(3) by (simp add: ascii_simps)
    moreover have "int_of_group (Some [48, 48]) = Inr (Some 0)"
      by (simp add: int_of_group_def py_int_2 [of 48 0 48 0] decimal_low)
    moreover obtain h l where
      "int_of_group (nth_opt (findall_deg (visible_text (chosen_cards bs ! i))) 0) = Inr h"
      "int_of_group (nth_opt (findall_deg (visible_text (chosen_cards bs ! i))) 1) = Inr l"
      using parse_card_total [of i "chosen_cards bs ! i"]
      by (auto simp: parse_card_def parse_text_def Let_def split: sum.splits)
    ultimately have "parse_card i (chosen_cards bs ! i) =
        Inr \<lparr>day_index = i + 1, card_text = take 200 (visible_text (chosen_cards bs ! i)),
             high_c = h, low_c = l, precip_pct = Some 0\<rparr>"
      unfolding parse_card_def parse_text_def Let_def by simp
    then show ?thesis using out(2) that(1) by simp
  qed
  show ?thesis
    using out(1) range hundred by blast
qed

theorem precip_two_digits_witness:
  "parse_accu_15day week_bs = Inr week_out
   \<and> \<not> digit_before 37 (ascii ''Cuma 9'' @ [32, 176, 32])
   \<and> visible_text (chosen_cards week_bs ! 1) = (ascii ''Cuma 9'' @ [32, 176, 32]) @ ascii ''100%'' @ []
   \<and> precip_pct (week_out ! 1) = Some 0"
  using precip_two_digits [of week_bs] week_result week_cards friday_card_text
  by (simp add: week_out_def ascii_simps is_digit_low)

end
